theory Spec2Isabelle
  imports Complex_Main "HOL-Library.Char_ord" "HOL-Library.List_Lexorder"
begin

section \<open>JavaScript numbers\<close>

text \<open>
  A JavaScript number is a finite value, \<open>NaN\<close>, \<open>Infinity\<close> or \<open>-Infinity\<close>.
  Finite values are taken as real numbers: comparisons are exact, as they are on
  doubles, while the rounding of arithmetic results is not modelled. Every comparison
  with \<open>NaN\<close> is false.
\<close>

datatype jsnum = Fin real | NaN | PosInf | NegInf

fun js_le :: "jsnum \<Rightarrow> jsnum \<Rightarrow> bool" where
  "js_le NaN _ = False"
| "js_le _ NaN = False"
| "js_le NegInf _ = True"
| "js_le _ PosInf = True"
| "js_le (Fin a) (Fin b) = (a \<le> b)"
| "js_le (Fin a) NegInf = False"
| "js_le PosInf (Fin b) = False"
| "js_le PosInf NegInf = False"

fun js_lt :: "jsnum \<Rightarrow> jsnum \<Rightarrow> bool" where
  "js_lt NaN _ = False"
| "js_lt _ NaN = False"
| "js_lt PosInf _ = False"
| "js_lt _ NegInf = False"
| "js_lt (Fin a) (Fin b) = (a < b)"
| "js_lt (Fin a) PosInf = True"
| "js_lt NegInf (Fin b) = True"
| "js_lt NegInf PosInf = True"

definition js_ge :: "jsnum \<Rightarrow> jsnum \<Rightarrow> bool" where
  "js_ge a b = js_le b a"

definition js_gt :: "jsnum \<Rightarrow> jsnum \<Rightarrow> bool" where
  "js_gt a b = js_lt b a"

text \<open>\<open>Number.isFinite\<close>.\<close>

fun isFinite :: "jsnum \<Rightarrow> bool" where
  "isFinite (Fin _) = True"
| "isFinite _ = False"

text \<open>
  Negation, sum, difference, and the product and quotient of a number with a finite
  factor or a finite divisor other than 0, with the results that IEEE arithmetic gives
  on \<open>NaN\<close> and the infinities.
\<close>

fun js_neg :: "jsnum \<Rightarrow> jsnum" where
  "js_neg (Fin a) = Fin (- a)"
| "js_neg NaN = NaN"
| "js_neg PosInf = NegInf"
| "js_neg NegInf = PosInf"

fun js_add :: "jsnum \<Rightarrow> jsnum \<Rightarrow> jsnum" where
  "js_add NaN _ = NaN"
| "js_add _ NaN = NaN"
| "js_add (Fin a) (Fin b) = Fin (a + b)"
| "js_add PosInf NegInf = NaN"
| "js_add NegInf PosInf = NaN"
| "js_add PosInf _ = PosInf"
| "js_add _ PosInf = PosInf"
| "js_add NegInf _ = NegInf"
| "js_add _ NegInf = NegInf"

definition js_sub :: "jsnum \<Rightarrow> jsnum \<Rightarrow> jsnum" where
  "js_sub a b = js_add a (js_neg b)"

fun js_times :: "real \<Rightarrow> jsnum \<Rightarrow> jsnum" where
  "js_times c (Fin a) = Fin (c * a)"
| "js_times c NaN = NaN"
| "js_times c PosInf = (if c = 0 then NaN else if 0 < c then PosInf else NegInf)"
| "js_times c NegInf = (if c = 0 then NaN else if 0 < c then NegInf else PosInf)"

fun js_over :: "jsnum \<Rightarrow> real \<Rightarrow> jsnum" where
  "js_over (Fin a) c = Fin (a / c)"
| "js_over NaN c = NaN"
| "js_over PosInf c = (if 0 < c then PosInf else NegInf)"
| "js_over NegInf c = (if 0 < c then NegInf else PosInf)"

section \<open>Normalized records\<close>

text \<open>
  One element of \<open>data\<close>: the fields \<open>__x\<close>, \<open>__y\<close>, \<open>__made\<close>, \<open>__player\<close>,
  \<open>__team\<close>, \<open>__dist\<close>, \<open>__date\<close>, \<open>__q\<close>, \<open>__mins\<close>, \<open>__secs\<close> that the
  constructor adds to each row. \<open>__made\<close> is 1 or 0 in the source and a boolean here.
  The player and team cells are strings, as the CSV loader delivers them. A parsed date
  is represented by its \<open>toISOString()\<close> text; \<open>None\<close> is \<open>null\<close>.
\<close>

record shot =
  s_x :: jsnum
  s_y :: jsnum
  s_made :: bool
  s_player :: string
  s_team :: string
  s_dist :: jsnum
  s_date :: "string option"
  s_q :: "jsnum option"
  s_mins :: "jsnum option"
  s_secs :: "jsnum option"

section \<open>Raw cells and their coercion\<close>

text \<open>
  A cell of a raw row: a string, a number or a boolean, \<open>undefined\<close> when the column is
  absent. Strings are byte strings (the UTF-8 text).
\<close>

datatype jsval = Undefined | Null | Bool bool | Num jsnum | Str string

text \<open>
  The double nearest to a real number, as IEEE 754 rounds to nearest with ties to even:
  a double is an integer multiple \<open>m * 2^(e - 52)\<close> with \<open>m\<close> below \<open>2^53\<close>, where
  \<open>e\<close> is the binary exponent of the number, not below -1022; what rounds to
  \<open>2^1024\<close> or beyond is an infinity.
\<close>

definition pow2 :: "int \<Rightarrow> real" where
  "pow2 e = (if 0 \<le> e then 2 ^ nat e else 1 / 2 ^ nat (- e))"

fun expo_up :: "nat \<Rightarrow> real \<Rightarrow> int \<Rightarrow> int" where
  "expo_up 0 a e = e"
| "expo_up (Suc n) a e = (if a < pow2 (e + 1) then e else expo_up n a (e + 1))"

fun expo_down :: "nat \<Rightarrow> real \<Rightarrow> int \<Rightarrow> int" where
  "expo_down 0 a e = e"
| "expo_down (Suc n) a e = (if pow2 e \<le> a then e else expo_down n a (e - 1))"

definition binade :: "real \<Rightarrow> int" where
  "binade a = (if 1 \<le> a then expo_up 1023 a 0 else expo_down 1021 a (- 1))"

definition round_half_even :: "real \<Rightarrow> int" where
  "round_half_even q =
     (let f = \<lfloor>q\<rfloor>; d = q - of_int f
      in if d < 1 / 2 then f else if 1 / 2 < d then f + 1 else if even f then f else f + 1)"

definition round_double :: "real \<Rightarrow> jsnum" where
  "round_double x =
     (let a = \<bar>x\<bar> in
      if a = 0 then Fin 0
      else if 2 ^ 1024 \<le> a then (if 0 < x then PosInf else NegInf)
      else (let u = pow2 (binade a - 52);
                r = of_int (round_half_even (a / u)) * u
            in if 2 ^ 1024 \<le> r then (if 0 < x then PosInf else NegInf)
               else Fin (if 0 < x then r else - r)))"

text \<open>
  The conversion of a string to a number that unary \<open>+\<close> performs: white space is
  trimmed on both sides; the empty string is 0; then a decimal literal with optional
  sign, fraction and exponent, \<open>Infinity\<close> with optional sign, or an unsigned
  hexadecimal, octal or binary integer; anything else is \<open>NaN\<close>. \<open>literal_value\<close> is
  the mathematical value of the literal, which \<open>string_to_number\<close> rounds to the nearest
  double.
\<close>

definition ws_seqs :: "string list" where
  "ws_seqs =
     [[CHR 0x09], [CHR 0x0A], [CHR 0x0B], [CHR 0x0C], [CHR 0x0D], [CHR 0x20],
      [CHR 0xC2, CHR 0xA0], [CHR 0xE1, CHR 0x9A, CHR 0x80],
      [CHR 0xE2, CHR 0x80, CHR 0x80], [CHR 0xE2, CHR 0x80, CHR 0x81],
      [CHR 0xE2, CHR 0x80, CHR 0x82], [CHR 0xE2, CHR 0x80, CHR 0x83],
      [CHR 0xE2, CHR 0x80, CHR 0x84], [CHR 0xE2, CHR 0x80, CHR 0x85],
      [CHR 0xE2, CHR 0x80, CHR 0x86], [CHR 0xE2, CHR 0x80, CHR 0x87],
      [CHR 0xE2, CHR 0x80, CHR 0x88], [CHR 0xE2, CHR 0x80, CHR 0x89],
      [CHR 0xE2, CHR 0x80, CHR 0x8A], [CHR 0xE2, CHR 0x80, CHR 0xA8],
      [CHR 0xE2, CHR 0x80, CHR 0xA9], [CHR 0xE2, CHR 0x80, CHR 0xAF],
      [CHR 0xE2, CHR 0x81, CHR 0x9F], [CHR 0xE3, CHR 0x80, CHR 0x80],
      [CHR 0xEF, CHR 0xBB, CHR 0xBF]]"

function strip_front :: "string list \<Rightarrow> string \<Rightarrow> string" where
  "strip_front ws s =
     (case find (\<lambda>w. w \<noteq> [] \<and> length w \<le> length s \<and> take (length w) s = w) ws of
        None \<Rightarrow> s
      | Some w \<Rightarrow> strip_front ws (drop (length w) s))"
  by pat_completeness auto
termination
proof (relation "measure (\<lambda>(ws, s). length s)")
  show "wf (measure (\<lambda>(ws, s). length s))" by simp
next
  fix ws :: "string list" and s w :: string
  assume "find (\<lambda>w. w \<noteq> [] \<and> length w \<le> length s \<and> take (length w) s = w) ws = Some w"
  then have "w \<noteq> [] \<and> length w \<le> length s"
    by (auto simp: find_Some_iff)
  then show "((ws, drop (length w) s), (ws, s)) \<in> measure (\<lambda>(ws, s). length s)"
    by (cases w) auto
qed

definition trim :: "string \<Rightarrow> string" where
  "trim s = rev (strip_front (map rev ws_seqs) (rev (strip_front ws_seqs s)))"

definition digit_of :: "char \<Rightarrow> nat option" where
  "digit_of c =
     (let n = (of_char c :: nat) in
      if 48 \<le> n \<and> n \<le> 57 then Some (n - 48)
      else if 97 \<le> n \<and> n \<le> 102 then Some (n - 87)
      else if 65 \<le> n \<and> n \<le> 70 then Some (n - 55)
      else None)"

definition is_digit :: "nat \<Rightarrow> char \<Rightarrow> bool" where
  "is_digit b c = (case digit_of c of None \<Rightarrow> False | Some v \<Rightarrow> v < b)"

definition radix_val :: "nat \<Rightarrow> string \<Rightarrow> nat" where
  "radix_val b cs = foldl (\<lambda>a c. b * a + (case digit_of c of None \<Rightarrow> 0 | Some v \<Rightarrow> v)) 0 cs"

definition all_digits :: "nat \<Rightarrow> string \<Rightarrow> bool" where
  "all_digits b cs = (cs \<noteq> [] \<and> list_all (is_digit b) cs)"

definition pow10 :: "int \<Rightarrow> real" where
  "pow10 e = (if 0 \<le> e then 10 ^ nat e else 1 / 10 ^ nat (- e))"

definition exponent_part :: "string \<Rightarrow> int option" where
  "exponent_part r =
     (case r of
        [] \<Rightarrow> Some 0
      | c # t \<Rightarrow>
          if c = CHR ''e'' \<or> c = CHR ''E'' then
            (case t of
               [] \<Rightarrow> None
             | g # u \<Rightarrow>
                 if g = CHR ''+'' then (if all_digits 10 u then Some (int (radix_val 10 u)) else None)
                 else if g = CHR ''-'' then (if all_digits 10 u then Some (- int (radix_val 10 u)) else None)
                 else (if all_digits 10 t then Some (int (radix_val 10 t)) else None))
          else None)"

definition unsigned_decimal :: "string \<Rightarrow> real option" where
  "unsigned_decimal u =
     (let ip = takeWhile (is_digit 10) u;
          r1 = dropWhile (is_digit 10) u;
          fp = (case r1 of [] \<Rightarrow> [] | c # t \<Rightarrow> if c = CHR ''.'' then takeWhile (is_digit 10) t else []);
          r2 = (case r1 of [] \<Rightarrow> [] | c # t \<Rightarrow> if c = CHR ''.'' then dropWhile (is_digit 10) t else r1)
      in if ip = [] \<and> fp = [] then None
         else (case exponent_part r2 of
                 None \<Rightarrow> None
               | Some e \<Rightarrow>
                   Some ((real (radix_val 10 ip) + real (radix_val 10 fp) / 10 ^ length fp) * pow10 e)))"

definition signed_decimal :: "string \<Rightarrow> jsnum" where
  "signed_decimal t =
     (case t of
        [] \<Rightarrow> NaN
      | c # u \<Rightarrow>
          if c = CHR ''+'' then
            (if u = ''Infinity'' then PosInf
             else case unsigned_decimal u of None \<Rightarrow> NaN | Some v \<Rightarrow> Fin v)
          else if c = CHR ''-'' then
            (if u = ''Infinity'' then NegInf
             else case unsigned_decimal u of None \<Rightarrow> NaN | Some v \<Rightarrow> Fin (- v))
          else
            (if t = ''Infinity'' then PosInf
             else case unsigned_decimal t of None \<Rightarrow> NaN | Some v \<Rightarrow> Fin v))"

definition non_decimal :: "string \<Rightarrow> nat option" where
  "non_decimal t =
     (case t of
        z # p # ds \<Rightarrow>
          if z \<noteq> CHR ''0'' then None
          else if (p = CHR ''x'' \<or> p = CHR ''X'') \<and> all_digits 16 ds then Some (radix_val 16 ds)
          else if (p = CHR ''o'' \<or> p = CHR ''O'') \<and> all_digits 8 ds then Some (radix_val 8 ds)
          else if (p = CHR ''b'' \<or> p = CHR ''B'') \<and> all_digits 2 ds then Some (radix_val 2 ds)
          else None
      | _ \<Rightarrow> None)"

definition literal_value :: "string \<Rightarrow> jsnum" where
  "literal_value s =
     (let t = trim s in
      if t = [] then Fin 0
      else case non_decimal t of
             Some n \<Rightarrow> Fin (real n)
           | None \<Rightarrow> signed_decimal t)"

definition string_to_number :: "string \<Rightarrow> jsnum" where
  "string_to_number s = (case literal_value s of Fin v \<Rightarrow> round_double v | n \<Rightarrow> n)"

text \<open>Unary \<open>+\<close> on a cell, and the truth value of a cell in a condition.\<close>

fun to_number :: "jsval \<Rightarrow> jsnum" where
  "to_number Undefined = NaN"
| "to_number Null = Fin 0"
| "to_number (Bool b) = (if b then Fin 1 else Fin 0)"
| "to_number (Num n) = n"
| "to_number (Str s) = string_to_number s"

fun truthy :: "jsval \<Rightarrow> bool" where
  "truthy Undefined = False"
| "truthy Null = False"
| "truthy (Bool b) = b"
| "truthy (Num n) = (n \<noteq> Fin 0 \<and> n \<noteq> NaN)"
| "truthy (Str s) = (s \<noteq> [])"

text \<open>
  The numeric literals of strings as the grammar of the language gives them, each with
  its mathematical value: a decimal literal is digits with an optional fraction, or a
  fraction alone, with an optional exponent part and an optional sign; the other
  literals are \<open>0x\<close>, \<open>0o\<close> or \<open>0b\<close> (in either case) and digits of that base.
\<close>

inductive exponent_lit :: "string \<Rightarrow> int \<Rightarrow> bool" where
  no_exponent: "exponent_lit [] 0"
| plain_exponent:
    "c = CHR ''e'' \<or> c = CHR ''E'' \<Longrightarrow> all_digits 10 ds \<Longrightarrow>
       exponent_lit (c # ds) (int (radix_val 10 ds))"
| plus_exponent:
    "c = CHR ''e'' \<or> c = CHR ''E'' \<Longrightarrow> all_digits 10 ds \<Longrightarrow>
       exponent_lit (c # CHR ''+'' # ds) (int (radix_val 10 ds))"
| minus_exponent:
    "c = CHR ''e'' \<or> c = CHR ''E'' \<Longrightarrow> all_digits 10 ds \<Longrightarrow>
       exponent_lit (c # CHR ''-'' # ds) (- int (radix_val 10 ds))"

inductive unsigned_lit :: "string \<Rightarrow> real \<Rightarrow> bool" where
  digits_point:
    "all_digits 10 ip \<Longrightarrow> list_all (is_digit 10) fp \<Longrightarrow> exponent_lit ex e \<Longrightarrow>
       unsigned_lit (ip @ CHR ''.'' # fp @ ex)
         ((real (radix_val 10 ip) + real (radix_val 10 fp) / 10 ^ length fp) * pow10 e)"
| point_digits:
    "all_digits 10 fp \<Longrightarrow> exponent_lit ex e \<Longrightarrow>
       unsigned_lit (CHR ''.'' # fp @ ex) (real (radix_val 10 fp) / 10 ^ length fp * pow10 e)"
| digits_only:
    "all_digits 10 ip \<Longrightarrow> exponent_lit ex e \<Longrightarrow>
       unsigned_lit (ip @ ex) (real (radix_val 10 ip) * pow10 e)"

inductive numeric_lit :: "string \<Rightarrow> real \<Rightarrow> bool" where
  unsigned: "unsigned_lit u v \<Longrightarrow> numeric_lit u v"
| plus: "unsigned_lit u v \<Longrightarrow> numeric_lit (CHR ''+'' # u) v"
| minus: "unsigned_lit u v \<Longrightarrow> numeric_lit (CHR ''-'' # u) (- v)"
| hex:
    "p = CHR ''x'' \<or> p = CHR ''X'' \<Longrightarrow> all_digits 16 ds \<Longrightarrow>
       numeric_lit (CHR ''0'' # p # ds) (real (radix_val 16 ds))"
| octal:
    "p = CHR ''o'' \<or> p = CHR ''O'' \<Longrightarrow> all_digits 8 ds \<Longrightarrow>
       numeric_lit (CHR ''0'' # p # ds) (real (radix_val 8 ds))"
| binary:
    "p = CHR ''b'' \<or> p = CHR ''B'' \<Longrightarrow> all_digits 2 ds \<Longrightarrow>
       numeric_lit (CHR ''0'' # p # ds) (real (radix_val 2 ds))"

text \<open>
  The cells of one raw row read through the column mapping: \<open>d[columns.x]\<close>,
  \<open>d[columns.y]\<close>, \<open>d[columns.made]\<close> and so on. The player and team cells are
  strings; \<open>r_date\<close> is the cell after \<open>parseMDY\<close>.
\<close>

record raw_row =
  r_x :: jsval
  r_y :: jsval
  r_made :: jsval
  r_player :: string
  r_team :: string
  r_distance :: jsval
  r_date :: "string option"
  r_quarter :: jsval
  r_minsLeft :: jsval
  r_secsLeft :: jsval

text \<open>The coercion of the made cell: \<open>"TRUE"\<close>, \<open>true\<close>, or a cell whose number is 1.\<close>

definition made_of :: "jsval \<Rightarrow> bool" where
  "made_of v = (v = Str ''TRUE'' \<or> v = Bool True \<or> to_number v = Fin 1)"

definition opt_number :: "jsval \<Rightarrow> jsnum option" where
  "opt_number v = (if truthy v then Some (to_number v) else None)"

definition normalize :: "raw_row \<Rightarrow> shot" where
  "normalize d =
     \<lparr> s_x = to_number (r_x d),
       s_y = to_number (r_y d),
       s_made = made_of (r_made d),
       s_player = r_player d,
       s_team = r_team d,
       s_dist = to_number (r_distance d),
       s_date = r_date d,
       s_q = opt_number (r_quarter d),
       s_mins = opt_number (r_minsLeft d),
       s_secs = opt_number (r_secsLeft d) \<rparr>"

section \<open>Filter state\<close>

text \<open>
  The options of the "Result" and "Distance Mode" selects. \<open>D0_10\<close>, \<open>D10_23\<close> and
  \<open>D23plus\<close> stand for the option texts "0-10", "10-23" and "23+".
\<close>

datatype result_opt = All | Made | Missed

datatype dist_opt = DAll | D0_10 | D10_23 | D23plus

text \<open>
  The variables that \<open>redraw\<close> reads: \<open>selPlayers\<close>, \<open>selTeams\<close>, \<open>madeFilter\<close>,
  \<open>distFilter\<close> and \<open>brushedExtent\<close> (\<open>None\<close> is \<open>null\<close>).
\<close>

record filters =
  selPlayers :: "string list"
  selTeams :: "string list"
  madeFilter :: result_opt
  distFilter :: dist_opt
  brushedExtent :: "(jsnum \<times> jsnum) option"

text \<open>
  The head of \<open>redraw\<close>: the chain of filters that computes \<open>filtered\<close> from
  \<open>data\<close>, statement by statement.
\<close>

definition filtered :: "'a filters_scheme \<Rightarrow> shot list \<Rightarrow> shot list" where
  "filtered f ds =
     (let f0 = filter (\<lambda>d. s_player d \<in> set (selPlayers f) \<and> s_team d \<in> set (selTeams f)) ds;
          f1 = (if madeFilter f = Made then filter (\<lambda>d. s_made d) f0 else f0);
          f2 = (if madeFilter f = Missed then filter (\<lambda>d. \<not> s_made d) f1 else f1);
          f3 = (if distFilter f \<noteq> DAll then
                  (let g1 = (if distFilter f = D0_10
                             then filter (\<lambda>d. js_le (s_dist d) (Fin 10)) f2 else f2);
                       g2 = (if distFilter f = D10_23
                             then filter (\<lambda>d. js_gt (s_dist d) (Fin 10) \<and>
                                               js_le (s_dist d) (Fin 23)) g1
                             else g1)
                   in if distFilter f = D23plus
                      then filter (\<lambda>d. js_gt (s_dist d) (Fin 23)) g2 else g2)
                else f2)
      in case brushedExtent f of
           None \<Rightarrow> f3
         | Some (d0, d1) \<Rightarrow> filter (\<lambda>d. js_ge (s_dist d) d0 \<and> js_le (s_dist d) d1) f3)"

text \<open>
  The criteria one at a time, as the specification words them: each is the subset of
  the records that one criterion alone lets through. An outcome or band of "All" and an
  absent brush range let every record through.
\<close>

definition actor_ok :: "'a filters_scheme \<Rightarrow> shot \<Rightarrow> bool" where
  "actor_ok f d = (s_player d \<in> set (selPlayers f))"

definition group_ok :: "'a filters_scheme \<Rightarrow> shot \<Rightarrow> bool" where
  "group_ok f d = (s_team d \<in> set (selTeams f))"

definition outcome_ok :: "'a filters_scheme \<Rightarrow> shot \<Rightarrow> bool" where
  "outcome_ok f d =
     (case madeFilter f of All \<Rightarrow> True | Made \<Rightarrow> s_made d | Missed \<Rightarrow> \<not> s_made d)"

definition band_ok :: "'a filters_scheme \<Rightarrow> shot \<Rightarrow> bool" where
  "band_ok f d =
     (case distFilter f of
        DAll \<Rightarrow> True
      | D0_10 \<Rightarrow> js_le (s_dist d) (Fin 10)
      | D10_23 \<Rightarrow> js_lt (Fin 10) (s_dist d) \<and> js_le (s_dist d) (Fin 23)
      | D23plus \<Rightarrow> js_lt (Fin 23) (s_dist d))"

definition range_ok :: "'a filters_scheme \<Rightarrow> shot \<Rightarrow> bool" where
  "range_ok f d =
     (case brushedExtent f of
        None \<Rightarrow> True
      | Some (lo, hi) \<Rightarrow> js_le lo (s_dist d) \<and> js_le (s_dist d) hi)"

definition subset_by :: "(shot \<Rightarrow> bool) \<Rightarrow> shot list \<Rightarrow> shot set" where
  "subset_by P ds = {d \<in> set ds. P d}"

section \<open>The histogram scale\<close>

text \<open>
  A d3 linear scale with a two-point domain and range, not clamped. \<open>scale_apply\<close> is
  the call \<open>hx(v)\<close> and \<open>scale_invert\<close> is \<open>hx.invert(p)\<close>; both go through d3's
  \<open>bimap\<close>, which normalizes its argument on the first interval and interpolates on the
  second.
\<close>

record scale =
  dom_lo :: real
  dom_hi :: real
  rng_lo :: real
  rng_hi :: real

definition d3_normalize :: "real \<Rightarrow> real \<Rightarrow> jsnum \<Rightarrow> jsnum" where
  "d3_normalize a b v = (if b - a = 0 then Fin (1 / 2) else js_over (js_sub v (Fin a)) (b - a))"

definition interpolateNumber :: "real \<Rightarrow> real \<Rightarrow> jsnum \<Rightarrow> jsnum" where
  "interpolateNumber a b t = js_add (js_times a (js_sub (Fin 1) t)) (js_times b t)"

definition bimap :: "real \<times> real \<Rightarrow> real \<times> real \<Rightarrow> jsnum \<Rightarrow> jsnum" where
  "bimap d r v =
     (if snd d < fst d then interpolateNumber (snd r) (fst r) (d3_normalize (snd d) (fst d) v)
      else interpolateNumber (fst r) (snd r) (d3_normalize (fst d) (snd d) v))"

definition scale_apply :: "scale \<Rightarrow> jsnum \<Rightarrow> jsnum" where
  "scale_apply sc v = bimap (dom_lo sc, dom_hi sc) (rng_lo sc, rng_hi sc) v"

definition scale_invert :: "scale \<Rightarrow> jsnum \<Rightarrow> jsnum" where
  "scale_invert sc p = bimap (rng_lo sc, rng_hi sc) (dom_lo sc, dom_hi sc) p"

text \<open>\<open>data.map(d => d.__dist).filter(Number.isFinite)\<close>.\<close>

fun finite_part :: "jsnum \<Rightarrow> real option" where
  "finite_part (Fin r) = Some r"
| "finite_part _ = None"

definition finite_values :: "shot list \<Rightarrow> real list" where
  "finite_values ds = List.map_filter finite_part (map s_dist ds)"

text \<open>
  \<open>d3.quantile\<close> on finite numbers: \<open>undefined\<close> (\<open>None\<close>) on no values, the minimum
  for a single value or \<open>p \<le> 0\<close>, the maximum for \<open>p \<ge> 1\<close>, and otherwise the linear
  interpolation between the order statistics around position \<open>(n - 1) * p\<close>.
\<close>

definition quantile :: "real list \<Rightarrow> real \<Rightarrow> real option" where
  "quantile vs p =
     (let n = length vs in
      if n = 0 then None
      else if p \<le> 0 \<or> n < 2 then Some (Min (set vs))
      else if p \<ge> 1 then Some (Max (set vs))
      else (let i = real (n - 1) * p;
                i0 = nat \<lfloor>i\<rfloor>;
                value0 = sort vs ! i0;
                value1 = sort vs ! (i0 + 1)
            in Some (value0 + (value1 - value0) * (i - real i0))))"

text \<open>The layout constants \<open>W\<close>, \<open>HM\<close>, \<open>HW\<close> and \<open>HH\<close>.\<close>

definition W :: real where "W = 1100"
definition HM_top :: real where "HM_top = 10"
definition HM_right :: real where "HM_right = 20"
definition HM_bottom :: real where "HM_bottom = 26"
definition HM_left :: real where "HM_left = 40"
definition HW :: real where "HW = W - HM_left - HM_right"
definition HH :: real where "HH = 140 - HM_top - HM_bottom"

text \<open>
  The upper end of the domain of \<open>hx\<close>: the 0.99 quantile of the sorted finite distances
  of all of \<open>data\<close>, or 35 when that is \<open>undefined\<close> or 0 (the operands that \<open>||\<close>
  replaces).
\<close>

definition hx_upper :: "shot list \<Rightarrow> real" where
  "hx_upper ds =
     (case quantile (sort (finite_values ds)) (99 / 100) of
        None \<Rightarrow> 35
      | Some q \<Rightarrow> if q = 0 then 35 else q)"

definition hx_init :: "shot list \<Rightarrow> scale" where
  "hx_init ds = \<lparr> dom_lo = 0, dom_hi = hx_upper ds, rng_lo = 0, rng_hi = HW \<rparr>"

section \<open>The chart\<close>

text \<open>
  A \<open>circle\<close> element of the \<open>dots\<close> group: its identity as a node, the attributes that
  depend on the record, and the datum bound to it. The attributes that are the same on
  every circle (radius, opacities, stroke width) are left out.
\<close>

record circle =
  node :: nat
  cx :: jsnum
  cy :: jsnum
  fill :: string
  stroke :: string
  datum :: shot

text \<open>A bin of the histogram: \<open>x0\<close>, \<open>x1\<close> and the values that fell into it.\<close>

type_synonym bin = "real \<times> real \<times> real list"

text \<open>
  \<open>d3.bin().domain(dom).thresholds(k)\<close> is a function of the domain, the count and the
  values; it is a parameter of the development.
\<close>

type_synonym bin_gen = "real \<times> real \<Rightarrow> nat \<Rightarrow> real list \<Rightarrow> bin list"

text \<open>
  The state of one chart: the filter variables, the constants \<open>data\<close>, \<open>x\<close>, \<open>y\<close> and
  \<open>hx\<close> fixed by the constructor, the zoom transform set on the court and dots groups,
  the circles of the dots group in document order, the supply of fresh nodes, and the
  bins bound to the bars. The position scales \<open>x\<close> and \<open>y\<close> are d3 linear scales; the
  development holds for whatever functions they are.
\<close>

record chart = filters +
  data :: "shot list"
  x_scale :: "jsnum \<Rightarrow> jsnum"
  y_scale :: "jsnum \<Rightarrow> jsnum"
  hx :: scale
  transform :: "real \<times> real \<times> real"
  dots :: "circle list"
  next_node :: nat
  bins :: "bin list"

text \<open>The key function of the data join, \<open>(d, i) => i\<close>.\<close>

definition key_index :: "shot \<Rightarrow> nat \<Rightarrow> nat" where
  "key_index d i = i"

text \<open>The circle appended for an entering datum.\<close>

definition enter_circle :: "(jsnum \<Rightarrow> jsnum) \<Rightarrow> (jsnum \<Rightarrow> jsnum) \<Rightarrow> nat \<Rightarrow> shot \<Rightarrow> circle" where
  "enter_circle x y n d =
     \<lparr> node = n,
       cx = x (s_x d),
       cy = y (s_y d),
       fill = (if s_made d then ''#4a90e2'' else ''#e74c3c''),
       stroke = (if s_made d then ''#6ba3e8'' else ''#ec7063''),
       datum = d \<rparr>"

text \<open>
  The keyed data join of d3, \<open>selection.data(values, key)\<close> followed by \<open>join\<close>. Every
  existing node gets the key of its datum and its index in the selection; of several
  nodes with one key the first counts. The data are then walked in order: a datum whose
  key names a node that is still free takes that node and is bound to it (update, which
  here changes nothing else); any other datum gets a new circle (enter). Nodes that no
  datum took are removed (exit), and the document order of the result is the order of
  the data.
\<close>

definition node_keys :: "(shot \<Rightarrow> nat \<Rightarrow> nat) \<Rightarrow> circle list \<Rightarrow> (nat \<times> circle) list" where
  "node_keys key cs = map (\<lambda>(i, c). (key (datum c) i, c)) (enumerate 0 cs)"

fun bind_data ::
  "(shot \<Rightarrow> nat \<Rightarrow> nat) \<Rightarrow> (nat \<Rightarrow> shot \<Rightarrow> circle) \<Rightarrow> (nat \<times> circle) list \<Rightarrow> nat \<Rightarrow> nat \<Rightarrow>
     shot list \<Rightarrow> circle list \<times> nat" where
  "bind_data key mk avail i fresh [] = ([], fresh)"
| "bind_data key mk avail i fresh (d # ds) =
     (case map_of avail (key d i) of
        Some c \<Rightarrow>
          (let r = bind_data key mk (filter (\<lambda>p. fst p \<noteq> key d i) avail) (Suc i) fresh ds
           in (c\<lparr>datum := d\<rparr> # fst r, snd r))
      | None \<Rightarrow>
          (let r = bind_data key mk avail (Suc i) (Suc fresh) ds
           in (mk fresh d # fst r, snd r)))"

definition join_dots ::
  "(jsnum \<Rightarrow> jsnum) \<Rightarrow> (jsnum \<Rightarrow> jsnum) \<Rightarrow> circle list \<Rightarrow> nat \<Rightarrow> shot list \<Rightarrow> circle list \<times> nat" where
  "join_dots x y old fresh ds =
     bind_data key_index (enter_circle x y) (node_keys key_index old) 0 fresh ds"

text \<open>
  The first part of \<open>redraw\<close>, up to the axis: the filter chain, the join of the
  circles with \<open>filtered\<close>, and the bins of the finite distances of all of \<open>data\<close>
  over the domain of \<open>hx\<close>. The bars, their height scale and the axis are drawn from
  the bins and \<open>hx\<close> alone and are not stored separately.
\<close>

definition draw :: "bin_gen \<Rightarrow> chart \<Rightarrow> chart" where
  "draw B st =
     (let flt = filtered st (data st);
          r = join_dots (x_scale st) (y_scale st) (dots st) (next_node st) flt;
          vals = finite_values (data st);
          bs = B (dom_lo (hx st), dom_hi (hx st)) 25 vals
      in st\<lparr> dots := fst r, next_node := snd r, bins := bs \<rparr>)"

text \<open>
  How a call ends: it returns, or it ends in a \<open>RangeError\<close> because the call stack is
  used up. Either way the state is what the call has made of it by then.
\<close>

datatype 'a outcome = Returned 'a | RangeError 'a

fun state_of :: "'a outcome \<Rightarrow> 'a" where
  "state_of (Returned s) = s"
| "state_of (RangeError s) = s"

fun returns :: "'a outcome \<Rightarrow> bool" where
  "returns (Returned s) = True"
| "returns (RangeError s) = False"

text \<open>
  The assignment in the listener of the brush: \<open>brushedExtent = null\<close> for a \<open>null\<close>
  selection, and \<open>brushedExtent = selection.map(hx.invert)\<close> otherwise.
\<close>

definition store_selection :: "(jsnum \<times> jsnum) option \<Rightarrow> chart \<Rightarrow> chart" where
  "store_selection sel st =
     (case sel of
        None \<Rightarrow> st\<lparr> brushedExtent := None \<rparr>
      | Some p \<Rightarrow>
          st\<lparr> brushedExtent :=
                Some (scale_invert (hx st) (fst p), scale_invert (hx st) (snd p)) \<rparr>)"

text \<open>
  \<open>redraw\<close>. After the first part it installs the brush and, when \<open>brushedExtent\<close> is
  set, moves the brush to \<open>brushedExtent.map(hx)\<close>. Moving the brush sends the brush
  event to the listener at once, within the call; the listener stores the selection and
  calls \<open>redraw\<close> again, and nothing guards against this. The first argument is the
  number of further calls of \<open>redraw\<close> that the call stack has room for: with none
  left, the move ends in a \<open>RangeError\<close>, which nothing catches. Should the listener
  return, the end event of the move reaches it next.
\<close>

fun redraw :: "nat \<Rightarrow> bin_gen \<Rightarrow> chart \<Rightarrow> chart outcome" where
  "redraw 0 B st =
     (let s1 = draw B st in
      case brushedExtent s1 of
        None \<Rightarrow> Returned s1
      | Some e \<Rightarrow> RangeError s1)"
| "redraw (Suc k) B st =
     (let s1 = draw B st in
      case brushedExtent s1 of
        None \<Rightarrow> Returned s1
      | Some e \<Rightarrow>
          (let sel = Some (scale_apply (hx s1) (fst e), scale_apply (hx s1) (snd e)) in
           case redraw k B (store_selection sel s1) of
             RangeError s \<Rightarrow> RangeError s
           | Returned s2 \<Rightarrow> redraw k B (store_selection sel s2)))"

text \<open>The listener of the brush: it stores the selection and calls \<open>redraw\<close>.\<close>

definition on_brush :: "nat \<Rightarrow> bin_gen \<Rightarrow> (jsnum \<times> jsnum) option \<Rightarrow> chart \<Rightarrow> chart outcome" where
  "on_brush k B sel st = redraw k B (store_selection sel st)"

text \<open>
  The callbacks: the four selects, the brush (\<open>None\<close> is a \<open>null\<close> selection, otherwise
  the two pixel ends of the selection) and the zoom, which does not redraw. Each runs
  on a call stack with room for \<open>k\<close> calls of \<open>redraw\<close> below the first.
\<close>

datatype event =
    PlayersChosen "string list"
  | TeamsChosen "string list"
  | ResultChosen result_opt
  | DistChosen dist_opt
  | Brushed "(real \<times> real) option"
  | Zoomed "real \<times> real \<times> real"

fun handle :: "nat \<Rightarrow> bin_gen \<Rightarrow> event \<Rightarrow> chart \<Rightarrow> chart outcome" where
  "handle k B (PlayersChosen v) st = redraw k B (st\<lparr> selPlayers := v \<rparr>)"
| "handle k B (TeamsChosen v) st = redraw k B (st\<lparr> selTeams := v \<rparr>)"
| "handle k B (ResultChosen v) st = redraw k B (st\<lparr> madeFilter := v \<rparr>)"
| "handle k B (DistChosen v) st = redraw k B (st\<lparr> distFilter := v \<rparr>)"
| "handle k B (Brushed None) st = on_brush k B None st"
| "handle k B (Brushed (Some (p0, p1))) st = on_brush k B (Some (Fin p0, Fin p1)) st"
| "handle k B (Zoomed t) st = Returned (st\<lparr> transform := t \<rparr>)"

text \<open>
  A sequence of events: each callback starts on a fresh stack, on the state that the
  one before has left, however that one ended.
\<close>

definition run :: "nat \<Rightarrow> bin_gen \<Rightarrow> event list \<Rightarrow> chart \<Rightarrow> chart" where
  "run k B evs st = foldl (\<lambda>s e. state_of (handle k B e s)) st evs"

text \<open>
  The constructor: \<open>Array.from(new Set(...))\<close> keeps the first occurrence of each name
  in order, \<open>sort()\<close> orders the names as strings, and the first \<open>min 5 n\<close> players and
  all teams are selected. It ends with the initial \<open>redraw()\<close>.
\<close>

fun uniq :: "'a list \<Rightarrow> 'a list" where
  "uniq [] = []"
| "uniq (a # as) = a # uniq (filter (\<lambda>b. b \<noteq> a) as)"

definition allPlayers :: "shot list \<Rightarrow> string list" where
  "allPlayers ds = sort (uniq (map s_player ds))"

definition allTeams :: "shot list \<Rightarrow> string list" where
  "allTeams ds = sort (uniq (map s_team ds))"

definition init_chart ::
  "nat \<Rightarrow> bin_gen \<Rightarrow> (jsnum \<Rightarrow> jsnum) \<Rightarrow> (jsnum \<Rightarrow> jsnum) \<Rightarrow> shot list \<Rightarrow> chart outcome" where
  "init_chart k B x y ds =
     redraw k B
       \<lparr> selPlayers = take (min 5 (length (allPlayers ds))) (allPlayers ds),
         selTeams = allTeams ds,
         madeFilter = All,
         distFilter = DAll,
         brushedExtent = None,
         data = ds,
         x_scale = x,
         y_scale = y,
         hx = hx_init ds,
         transform = (1, 0, 0),
         dots = [],
         next_node = 0,
         bins = [] \<rparr>"

section \<open>The tooltip\<close>

text \<open>
  The text of the tooltip is a sequence of pieces: literal text, the text
  \<open>String(n)\<close> of a number, and that text padded on the left with \<open>0\<close> to two
  characters. \<open>render\<close> gives the characters of a piece for a given conversion of
  numbers to strings.
\<close>

datatype piece = Txt string | NumTxt jsnum | Pad2 jsnum

definition padStart :: "nat \<Rightarrow> char \<Rightarrow> string \<Rightarrow> string" where
  "padStart n c s = replicate (n - length s) c @ s"

fun render :: "(jsnum \<Rightarrow> string) \<Rightarrow> piece \<Rightarrow> string" where
  "render nts (Txt s) = s"
| "render nts (NumTxt n) = nts n"
| "render nts (Pad2 n) = padStart 2 (CHR ''0'') (nts n)"

text \<open>The text of a number is never empty, so only an empty literal is empty.\<close>

fun piece_empty :: "piece \<Rightarrow> bool" where
  "piece_empty (Txt s) = (s = [])"
| "piece_empty _ = False"

definition row_truthy :: "piece list \<Rightarrow> bool" where
  "row_truthy r = (\<not> list_all piece_empty r)"

text \<open>The decimal digits of a natural number.\<close>

fun show_nat :: "nat \<Rightarrow> string" where
  "show_nat n =
     (if n < 10 then [char_of (48 + n)]
      else show_nat (n div 10) @ [char_of (48 + n mod 10)])"

declare show_nat.simps [simp del]

text \<open>
  \<open>x.toFixed(1)\<close> on a finite number: from \<open>10^21\<close> on it is \<open>String(x)\<close>; below, the
  sign, then the integer \<open>n\<close> nearest to ten times the magnitude (the larger one on a
  tie), written with a point before its last digit.
\<close>

definition toFixed1 :: "real \<Rightarrow> piece" where
  "toFixed1 v =
     (if \<bar>v\<bar> \<ge> 10 ^ 21 then NumTxt (Fin v)
      else (let n = nat \<lfloor>\<bar>v\<bar> * 10 + 1 / 2\<rfloor>
            in Txt ((if v < 0 then [CHR ''-''] else []) @
                    show_nat (n div 10) @ [CHR ''.''] @ show_nat (n mod 10))))"

text \<open>The two marks after "Made" and "Missed", U+2713 and U+2717.\<close>

definition check_mark :: string where
  "check_mark = [CHR 0xE2, CHR 0x9C, CHR 0x93]"

definition cross_mark :: string where
  "cross_mark = [CHR 0xE2, CHR 0x9C, CHR 0x97]"

text \<open>The five rows built in the \<open>mousemove\<close> callback, before \<open>filter(Boolean)\<close>.\<close>

definition row_name :: "shot \<Rightarrow> piece list" where
  "row_name d = [Txt ''<b>'', Txt (s_player d), Txt ''</b> ('', Txt (s_team d), Txt '')'']"

definition row_result :: "shot \<Rightarrow> piece list" where
  "row_result d =
     [Txt ''Result: '',
      Txt (if s_made d then ''Made '' @ check_mark else ''Missed '' @ cross_mark)]"

definition row_distance :: "shot \<Rightarrow> piece list" where
  "row_distance d =
     [Txt ''Distance: '',
      (case s_dist d of Fin v \<Rightarrow> toFixed1 v | _ \<Rightarrow> Txt ''NA''),
      Txt '' ft'']"

definition row_date :: "shot \<Rightarrow> piece list" where
  "row_date d =
     (case s_date d of
        Some ts \<Rightarrow> [Txt ''Date: '', Txt (take 10 ts)]
      | None \<Rightarrow> [Txt []])"

definition mins_text :: "jsnum option \<Rightarrow> piece" where
  "mins_text m = (case m of Some n \<Rightarrow> NumTxt n | None \<Rightarrow> Txt [])"

definition secs_text :: "jsnum option \<Rightarrow> piece" where
  "secs_text s = (case s of Some n \<Rightarrow> Pad2 n | None \<Rightarrow> Txt (padStart 2 (CHR ''0'') []))"

definition row_clock :: "shot \<Rightarrow> piece list" where
  "row_clock d =
     (case s_q d of
        Some q \<Rightarrow> [Txt ''Q'', NumTxt q, Txt ''  '', mins_text (s_mins d), Txt '':'',
                   secs_text (s_secs d)]
      | None \<Rightarrow> [Txt []])"

definition tooltip_rows :: "shot \<Rightarrow> piece list list" where
  "tooltip_rows d =
     filter row_truthy [row_name d, row_result d, row_distance d, row_date d, row_clock d]"

section \<open>Auxiliary notions\<close>

text \<open>
  The join by position: circle \<open>i\<close> of the old circles is bound to datum \<open>i\<close>, data
  beyond the old circles get new circles, and old circles beyond the data are dropped.
  The keyed join under \<open>key_index\<close> is shown below to be this join.
\<close>

fun index_join ::
  "(nat \<Rightarrow> shot \<Rightarrow> circle) \<Rightarrow> circle list \<Rightarrow> nat \<Rightarrow> shot list \<Rightarrow> circle list \<times> nat" where
  "index_join mk cs fresh [] = ([], fresh)"
| "index_join mk [] fresh (d # ds) =
     (let r = index_join mk [] (Suc fresh) ds in (mk fresh d # fst r, snd r))"
| "index_join mk (c # cs) fresh (d # ds) =
     (let r = index_join mk cs fresh ds in (c\<lparr>datum := d\<rparr> # fst r, snd r))"

text \<open>A state that \<open>draw\<close> leaves as it is: its circles and bins are up to date.\<close>

definition drawn :: "bin_gen \<Rightarrow> chart \<Rightarrow> bool" where
  "drawn B s = (draw B s = s)"


section \<open>Example data\<close>

text \<open>Concrete records and filter settings on which the properties below are run.\<close>

definition shot_of :: "string \<Rightarrow> string \<Rightarrow> bool \<Rightarrow> jsnum \<Rightarrow> shot" where
  "shot_of p t m dv =
     \<lparr> s_x = Fin 0, s_y = Fin 0, s_made = m, s_player = p, s_team = t, s_dist = dv,
       s_date = None, s_q = None, s_mins = None, s_secs = None \<rparr>"

definition fixture :: "shot list" where
  "fixture =
     [shot_of ''A'' ''T'' True (Fin 5),
      shot_of ''A'' ''T'' False (Fin 5),
      shot_of ''A'' ''T'' True (Fin 15),
      shot_of ''B'' ''T'' True (Fin 5),
      shot_of ''A'' ''T'' True NaN]"

definition fixture_filters :: filters where
  "fixture_filters =
     \<lparr> selPlayers = [''A''], selTeams = [''T''], madeFilter = Made, distFilter = D0_10,
       brushedExtent = Some (Fin 0, Fin 7) \<rparr>"

definition no_filters :: filters where
  "no_filters =
     \<lparr> selPlayers = [], selTeams = [], madeFilter = All, distFilter = DAll,
       brushedExtent = None \<rparr>"

text \<open>
  A bin generator and a position scale for the examples: one bin that spans the domain,
  and the identity.
\<close>

definition one_bin :: bin_gen where
  "one_bin dm k vs = [(fst dm, snd dm, vs)]"

definition plain :: "jsnum \<Rightarrow> jsnum" where
  "plain v = v"

text \<open>
  Two records of two players at different places, the chart built on them, and that
  chart after player B alone is chosen.
\<close>

definition two_players :: "shot list" where
  "two_players =
     [(shot_of ''A'' ''T'' True (Fin 5))\<lparr> s_x := Fin 10, s_y := Fin 50 \<rparr>,
      (shot_of ''B'' ''T'' False (Fin 20))\<lparr> s_x := Fin (-30), s_y := Fin 200 \<rparr>]"

definition st1 :: chart where
  "st1 = state_of (init_chart 2 one_bin plain plain two_players)"

definition st2 :: chart where
  "st2 = state_of (handle 2 one_bin (PlayersChosen [''B'']) st1)"

text \<open>
  Records with distances around 17.5 and two at 35, so that the 0.99 quantile is 35 and
  \<open>hx\<close> maps the domain from 0 to 35 onto the \<open>HW\<close> = 1040 pixels; the chart built on
  them; and that chart after a brush from pixel 0 to pixel 520.
\<close>

definition range_shots :: "shot list" where
  "range_shots =
     map (shot_of ''A'' ''T'' True)
       [Fin 0, Fin 17, Fin (35 / 2), Fin 18, Fin (- 1), NaN, PosInf, Fin 35, Fin 35]"

definition range_chart :: chart where
  "range_chart = state_of (init_chart 2 one_bin plain plain range_shots)"

definition ranged_chart :: chart where
  "ranged_chart = state_of (handle 1 one_bin (Brushed (Some (0, 520))) range_chart)"

text \<open>Data sets for the quantile: one record at distance 0, and distances 3, 1 and 2.\<close>

definition zero_shot :: "shot list" where
  "zero_shot = [shot_of ''A'' ''T'' True (Fin 0)]"

definition three_dists :: "shot list" where
  "three_dists = map (shot_of ''A'' ''T'' True) [Fin 3, NaN, Fin 1, Fin 2]"

text \<open>
  Records for the tooltip: one with period and minutes but no seconds, one with a date,
  a period and seconds but no minutes.
\<close>

definition clock_shot :: shot where
  "clock_shot = (shot_of ''A'' ''T'' True (Fin (49 / 4)))\<lparr> s_q := Some (Fin 4), s_mins := Some (Fin 3) \<rparr>"

definition dated_shot :: shot where
  "dated_shot =
     (shot_of ''A'' ''T'' False (Fin (49 / 4)))
       \<lparr> s_date := Some ''2004-03-12T08:00:00.000Z'', s_q := Some (Fin 4), s_secs := Some (Fin 7) \<rparr>"

text \<open>Seven records of six players.\<close>

definition six_players :: "shot list" where
  "six_players =
     map (\<lambda>p. shot_of p ''T'' True (Fin 5)) [''F'', ''B'', ''E'', ''A'', ''B'', ''D'', ''C'']"

section \<open>Properties\<close>

subsection \<open>The visible subset\<close>

lemma filtered_conj:
  "filtered f ds = filter (\<lambda>d. actor_ok f d \<and> group_ok f d \<and> outcome_ok f d \<and> band_ok f d \<and> range_ok f d) ds"
  by (cases "madeFilter f"; cases "distFilter f"; cases "brushedExtent f")
     (auto simp: filtered_def actor_ok_def group_ok_def outcome_ok_def band_ok_def range_ok_def
        js_ge_def js_gt_def Let_def intro!: filter_cong)

text \<open>
  C1. The records that \<open>redraw\<close> keeps are exactly those of \<open>data\<close> that pass
  every criterion: as a set, the intersection of the five subsets that the criteria
  select one at a time, and as a list, \<open>data\<close> filtered by the conjunction. With no
  player or no team selected nothing is kept, and with a distance band and a brush range
  both set every kept record lies in the band and in the range.
\<close>

theorem visible_subset_conjunctive:
  "set (filtered f ds) =
     subset_by (actor_ok f) ds \<inter> subset_by (group_ok f) ds \<inter> subset_by (outcome_ok f) ds \<inter>
     subset_by (band_ok f) ds \<inter> subset_by (range_ok f) ds
   \<and> filtered f ds =
       filter (\<lambda>d. actor_ok f d \<and> group_ok f d \<and> outcome_ok f d \<and> band_ok f d \<and> range_ok f d) ds
   \<and> (selPlayers f = [] \<longrightarrow> filtered f ds = [])
   \<and> (selTeams f = [] \<longrightarrow> filtered f ds = [])
   \<and> (distFilter f \<noteq> DAll \<and> brushedExtent f = Some (lo, hi) \<longrightarrow>
        set (filtered f ds) \<subseteq>
          {d. band_ok f d} \<inter> {d. js_le lo (s_dist d) \<and> js_le (s_dist d) hi})"
proof -
  have c: "filtered f ds =
      filter (\<lambda>d. actor_ok f d \<and> group_ok f d \<and> outcome_ok f d \<and> band_ok f d \<and> range_ok f d) ds"
    by (rule filtered_conj)
  have s: "set (filtered f ds) =
     subset_by (actor_ok f) ds \<inter> subset_by (group_ok f) ds \<inter> subset_by (outcome_ok f) ds \<inter>
     subset_by (band_ok f) ds \<inter> subset_by (range_ok f) ds"
    unfolding c subset_by_def by auto
  have p: "selPlayers f = [] \<longrightarrow> filtered f ds = []"
    unfolding c by (simp add: actor_ok_def)
  have t: "selTeams f = [] \<longrightarrow> filtered f ds = []"
    unfolding c by (simp add: group_ok_def)
  have b: "distFilter f \<noteq> DAll \<and> brushedExtent f = Some (lo, hi) \<longrightarrow>
        set (filtered f ds) \<subseteq>
          {d. band_ok f d} \<inter> {d. js_le lo (s_dist d) \<and> js_le (s_dist d) hi}"
    unfolding c by (auto simp: range_ok_def)
  from s c p t b show ?thesis by blast
qed

text \<open>
  On the five-record fixture, player A, made shots, band 0-10 and the range from 0 to 7
  leave one record; with nothing selected no record is left.
\<close>

lemma fixture_filtered: "filtered fixture_filters fixture = [shot_of ''A'' ''T'' True (Fin 5)]"
  by (simp add: filtered_def fixture_filters_def fixture_def shot_of_def js_ge_def js_gt_def)

theorem visible_subset_conjunctive_witness:
  "selPlayers no_filters = [] \<and> selTeams no_filters = [] \<and> filtered no_filters fixture = []
   \<and> distFilter fixture_filters \<noteq> DAll
   \<and> brushedExtent fixture_filters = Some (Fin 0, Fin 7)
   \<and> filtered fixture_filters fixture = [shot_of ''A'' ''T'' True (Fin 5)]
   \<and> set (filtered fixture_filters fixture) \<subseteq>
       {d. band_ok fixture_filters d} \<inter> {d. js_le (Fin 0) (s_dist d) \<and> js_le (s_dist d) (Fin 7)}"
proof -
  have e: "selPlayers no_filters = []" "selTeams no_filters = []"
    by (simp_all add: no_filters_def)
  have a: "distFilter fixture_filters \<noteq> DAll \<and> brushedExtent fixture_filters = Some (Fin 0, Fin 7)"
    by (simp add: fixture_filters_def)
  from visible_subset_conjunctive [of no_filters fixture] e
  have 1: "filtered no_filters fixture = []" by blast
  from visible_subset_conjunctive [of fixture_filters fixture "Fin 0" "Fin 7"] a
  have 2: "set (filtered fixture_filters fixture) \<subseteq>
       {d. band_ok fixture_filters d} \<inter> {d. js_le (Fin 0) (s_dist d) \<and> js_le (s_dist d) (Fin 7)}"
    by blast
  from e a 1 2 fixture_filtered show ?thesis by blast
qed

subsection \<open>The data join and the first part of redraw\<close>

text \<open>
  Under \<open>key_index\<close> the key of a node is its position and the key of a datum is its
  position, so the keyed join is the join by position.
\<close>

lemma node_keys_index: "node_keys key_index cs = enumerate 0 cs"
  by (simp add: node_keys_def key_index_def case_prod_unfold)

lemma filter_enumerate_above:
  "filter (\<lambda>p. fst p \<noteq> i) (enumerate (Suc i) cs) = enumerate (Suc i) cs"
  by (rule filter_True) (auto simp: in_set_enumerate_eq)

lemma bind_data_index:
  "bind_data key_index mk (enumerate i cs) i fresh ds = index_join mk cs fresh ds"
proof (induction ds arbitrary: cs i fresh)
  case Nil
  show ?case by simp
next
  case (Cons d ds)
  show ?case
  proof (cases cs)
    case Nil
    with Cons.IH [of "Suc i" "[]" "Suc fresh"] show ?thesis
      by (simp add: key_index_def)
  next
    case (Cons c cs')
    with Cons.IH [of "Suc i" cs' fresh] show ?thesis
      by (simp add: key_index_def filter_enumerate_above)
  qed
qed

lemma join_dots_index:
  "join_dots x y old fresh ds = index_join (enter_circle x y) old fresh ds"
  by (simp add: join_dots_def node_keys_index bind_data_index)

lemma index_join_fix:
  "length cs = length ds \<Longrightarrow> map datum cs = ds \<Longrightarrow> index_join mk cs fresh ds = (cs, fresh)"
proof (induction cs arbitrary: ds)
  case Nil
  then show ?case by simp
next
  case (Cons c cs)
  then obtain d ds' where ds: "ds = d # ds'" by (cases ds) auto
  with Cons show ?case by auto
qed

lemma index_join_datum:
  "(\<And>n d. datum (mk n d) = d) \<Longrightarrow> map datum (fst (index_join mk cs fresh ds)) = ds"
  by (induction mk cs fresh ds rule: index_join.induct) (auto simp: Let_def)

lemma index_join_length: "length (fst (index_join mk cs fresh ds)) = length ds"
  by (induction mk cs fresh ds rule: index_join.induct) (auto simp: Let_def)

lemma filtered_chart_fields [simp]:
  "filtered (st\<lparr> dots := a \<rparr>) ds = filtered st ds"
  "filtered (st\<lparr> next_node := b \<rparr>) ds = filtered st ds"
  "filtered (st\<lparr> bins := c \<rparr>) ds = filtered st ds"
  "filtered (st\<lparr> transform := t \<rparr>) ds = filtered st ds"
  by (simp_all add: filtered_conj actor_ok_def group_ok_def outcome_ok_def band_ok_def range_ok_def)

lemma dots_draw:
  "dots (draw B st) =
     fst (index_join (enter_circle (x_scale st) (y_scale st)) (dots st) (next_node st)
            (filtered st (data st)))"
  by (simp add: draw_def Let_def join_dots_index)

lemma datum_draw: "map datum (dots (draw B st)) = filtered st (data st)"
  by (simp add: dots_draw index_join_datum enter_circle_def)

lemma draw_draw: "draw B (draw B st) = draw B st"
proof -
  let ?flt = "filtered st (data st)"
  let ?r = "index_join (enter_circle (x_scale st) (y_scale st)) (dots st) (next_node st) ?flt"
  have "index_join (enter_circle (x_scale st) (y_scale st)) (fst ?r) (snd ?r) ?flt = (fst ?r, snd ?r)"
    by (rule index_join_fix) (simp_all add: index_join_length index_join_datum enter_circle_def)
  then show ?thesis
    by (simp add: draw_def Let_def join_dots_index)
qed

lemma draw_consts [simp]:
  "data (draw B st) = data st" "hx (draw B st) = hx st"
  "x_scale (draw B st) = x_scale st" "y_scale (draw B st) = y_scale st"
  "transform (draw B st) = transform st"
  "selPlayers (draw B st) = selPlayers st" "selTeams (draw B st) = selTeams st"
  "madeFilter (draw B st) = madeFilter st" "distFilter (draw B st) = distFilter st"
  "brushedExtent (draw B st) = brushedExtent st"
  by (simp_all add: draw_def Let_def)

lemma filtered_draw [simp]: "filtered (draw B st) ds = filtered st ds"
  by (simp add: filtered_conj actor_ok_def group_ok_def outcome_ok_def band_ok_def range_ok_def)

lemma bins_draw:
  "bins (draw B st) = B (dom_lo (hx st), dom_hi (hx st)) 25 (finite_values (data st))"
  by (simp add: draw_def Let_def)

lemma drawn_draw: "drawn B (draw B st)"
  by (simp add: drawn_def draw_draw)

lemma drawn_bins:
  "drawn B s \<Longrightarrow> bins s = B (dom_lo (hx s), dom_hi (hx s)) 25 (finite_values (data s))"
  using bins_draw [of B s] by (simp add: drawn_def)

lemma drawn_datum: "drawn B s \<Longrightarrow> map datum (dots s) = filtered s (data s)"
  using datum_draw [of B s] by (simp add: drawn_def)

lemma drawn_transform: "drawn B s \<Longrightarrow> drawn B (s\<lparr> transform := t \<rparr>)"
proof -
  assume d: "drawn B s"
  have "draw B (s\<lparr> transform := t \<rparr>) = (draw B s)\<lparr> transform := t \<rparr>"
    by (simp add: draw_def Let_def)
  with d show ?thesis by (simp add: drawn_def)
qed

subsection \<open>How redraw ends\<close>

text \<open>
  The listener's assignment touches \<open>brushedExtent\<close> only. Without a range \<open>redraw\<close>
  is its first part and returns; with a range it does not return, whatever room the
  stack has, and the range is still set when it ends. Whichever way it ends, it leaves
  the constants and the other filter variables alone and the circles and bins up to
  date.
\<close>

lemma store_selection_consts [simp]:
  "data (store_selection sel st) = data st" "hx (store_selection sel st) = hx st"
  "x_scale (store_selection sel st) = x_scale st" "y_scale (store_selection sel st) = y_scale st"
  "transform (store_selection sel st) = transform st"
  "selPlayers (store_selection sel st) = selPlayers st"
  "selTeams (store_selection sel st) = selTeams st"
  "madeFilter (store_selection sel st) = madeFilter st"
  "distFilter (store_selection sel st) = distFilter st"
  by (simp_all add: store_selection_def split: option.splits)

lemma store_selection_extent [simp]:
  "brushedExtent (store_selection None st) = None"
  "brushedExtent (store_selection (Some p) st) =
     Some (scale_invert (hx st) (fst p), scale_invert (hx st) (snd p))"
  by (simp_all add: store_selection_def)

lemma redraw_none: "brushedExtent st = None \<Longrightarrow> redraw k B st = Returned (draw B st)"
  by (cases k) (simp_all add: Let_def)

lemma redraw_some:
  "brushedExtent st \<noteq> None \<Longrightarrow>
     \<not> returns (redraw k B st) \<and> brushedExtent (state_of (redraw k B st)) \<noteq> None"
proof (induction k arbitrary: st)
  case 0
  then show ?case by (auto simp: Let_def split: option.splits)
next
  case (Suc k)
  from Suc.prems obtain e where e: "brushedExtent (draw B st) = Some e" by auto
  let ?sel = "Some (scale_apply (hx (draw B st)) (fst e), scale_apply (hx (draw B st)) (snd e))"
  have "brushedExtent (store_selection ?sel (draw B st)) \<noteq> None" by simp
  from Suc.IH [OF this]
  obtain s where s: "redraw k B (store_selection ?sel (draw B st)) = RangeError s"
    and n: "brushedExtent s \<noteq> None"
    by (cases "redraw k B (store_selection ?sel (draw B st))") auto
  from e s n show ?case by (simp add: Let_def)
qed


lemma redraw_keeps:
  "data (state_of (redraw k B st)) = data st \<and> hx (state_of (redraw k B st)) = hx st
   \<and> x_scale (state_of (redraw k B st)) = x_scale st
   \<and> y_scale (state_of (redraw k B st)) = y_scale st
   \<and> transform (state_of (redraw k B st)) = transform st
   \<and> selPlayers (state_of (redraw k B st)) = selPlayers st
   \<and> selTeams (state_of (redraw k B st)) = selTeams st
   \<and> madeFilter (state_of (redraw k B st)) = madeFilter st
   \<and> distFilter (state_of (redraw k B st)) = distFilter st
   \<and> drawn B (state_of (redraw k B st))"
proof (induction k arbitrary: st)
  case 0
  show ?case by (cases "brushedExtent st") (simp_all add: Let_def drawn_draw)
next
  case (Suc k)
  show ?case
  proof (cases "brushedExtent st")
    case None
    then show ?thesis by (simp add: redraw_none drawn_draw)
  next
    case (Some e)
    let ?sel = "Some (scale_apply (hx (draw B st)) (fst e), scale_apply (hx (draw B st)) (snd e))"
    let ?s2 = "store_selection ?sel (draw B st)"
    have "brushedExtent ?s2 \<noteq> None" by simp
    then obtain s where s: "redraw k B ?s2 = RangeError s"
      using redraw_some [of ?s2 k B] by (cases "redraw k B ?s2") auto
    from Some s have r: "state_of (redraw (Suc k) B st) = state_of (redraw k B ?s2)"
      by (simp add: Let_def)
    show ?thesis unfolding r using Suc.IH [of ?s2] by simp
  qed
qed

lemmas redraw_consts [simp] =
  redraw_keeps [THEN conjunct1]
  redraw_keeps [THEN conjunct2, THEN conjunct1]
  redraw_keeps [THEN conjunct2, THEN conjunct2, THEN conjunct1]
  redraw_keeps [THEN conjunct2, THEN conjunct2, THEN conjunct2, THEN conjunct1]
  redraw_keeps [THEN conjunct2, THEN conjunct2, THEN conjunct2, THEN conjunct2, THEN conjunct1]
  redraw_keeps [THEN conjunct2, THEN conjunct2, THEN conjunct2, THEN conjunct2, THEN conjunct2,
    THEN conjunct1]
  redraw_keeps [THEN conjunct2, THEN conjunct2, THEN conjunct2, THEN conjunct2, THEN conjunct2,
    THEN conjunct2, THEN conjunct1]
  redraw_keeps [THEN conjunct2, THEN conjunct2, THEN conjunct2, THEN conjunct2, THEN conjunct2,
    THEN conjunct2, THEN conjunct2, THEN conjunct1]
  redraw_keeps [THEN conjunct2, THEN conjunct2, THEN conjunct2, THEN conjunct2, THEN conjunct2,
    THEN conjunct2, THEN conjunct2, THEN conjunct2, THEN conjunct1]

lemma drawn_redraw: "drawn B (state_of (redraw k B st))"
  using redraw_keeps [of k B st] by blast

lemma on_brush_consts [simp]:
  "data (state_of (on_brush k B sel st)) = data st" "hx (state_of (on_brush k B sel st)) = hx st"
  by (simp_all add: on_brush_def)

lemma drawn_on_brush: "drawn B (state_of (on_brush k B sel st))"
  by (simp add: on_brush_def drawn_redraw)

lemma handle_consts [simp]:
  "data (state_of (handle k B e st)) = data st" "hx (state_of (handle k B e st)) = hx st"
  by (induction k B e st rule: handle.induct) simp_all

lemma drawn_handle: "drawn B s \<Longrightarrow> drawn B (state_of (handle k B e s))"
  by (induction k B e s rule: handle.induct) (simp_all add: drawn_redraw drawn_on_brush drawn_transform)

lemma run_keeps:
  "data (run k B evs st) = data st \<and> hx (run k B evs st) = hx st
   \<and> (drawn B st \<longrightarrow> drawn B (run k B evs st))"
proof -
  have "data (foldl (\<lambda>s e. state_of (handle k B e s)) st evs) = data st
      \<and> hx (foldl (\<lambda>s e. state_of (handle k B e s)) st evs) = hx st
      \<and> (drawn B st \<longrightarrow> drawn B (foldl (\<lambda>s e. state_of (handle k B e s)) st evs))"
    by (induction evs arbitrary: st) (simp_all add: drawn_handle)
  then show ?thesis by (simp add: run_def)
qed

lemma run_consts [simp]: "data (run k B evs st) = data st" "hx (run k B evs st) = hx st"
  using run_keeps [of k B evs st] by simp_all

lemma drawn_run: "drawn B st \<Longrightarrow> drawn B (run k B evs st)"
  using run_keeps [of k B evs st] by simp

lemma bins_redraw:
  "bins (state_of (redraw k B st)) = B (dom_lo (hx st), dom_hi (hx st)) 25 (finite_values (data st))"
  using drawn_bins [OF drawn_redraw [of B k st]] by simp

lemma finite_values_Fin: "map Fin (finite_values ds) = filter isFinite (map s_dist ds)"
proof (induction ds)
  case Nil
  show ?case by (simp add: finite_values_def map_filter_simps)
next
  case (Cons d ds)
  then show ?case
    by (cases "s_dist d") (simp_all add: finite_values_def map_filter_simps)
qed

subsection \<open>The literal grammar and the parser\<close>

lemma not_decimal_digit:
  "\<not> is_digit 10 CHR ''.''" "\<not> is_digit 10 CHR ''+''" "\<not> is_digit 10 CHR ''-''"
  "\<not> is_digit 10 CHR ''e''" "\<not> is_digit 10 CHR ''E''" "\<not> is_digit 10 CHR ''I''"
  "\<not> is_digit 10 CHR ''x''" "\<not> is_digit 10 CHR ''X''" "\<not> is_digit 10 CHR ''o''"
  "\<not> is_digit 10 CHR ''O''" "\<not> is_digit 10 CHR ''b''" "\<not> is_digit 10 CHR ''B''"
  by (simp_all add: is_digit_def digit_of_def)

lemma all_digits_hd:
  assumes "all_digits b ds"
  obtains g u where "ds = g # u" "is_digit b g"
  using assms by (cases ds) (auto simp: all_digits_def)

lemma exponent_part_iff: "exponent_part r = Some e \<longleftrightarrow> exponent_lit r e"
proof
  assume "exponent_part r = Some e"
  then show "exponent_lit r e"
    by (auto simp: exponent_part_def split: list.splits if_splits intro: exponent_lit.intros)
next
  assume "exponent_lit r e"
  then show "exponent_part r = Some e"
  proof cases
    case no_exponent
    then show ?thesis by (simp add: exponent_part_def)
  next
    case (plain_exponent c ds)
    from plain_exponent(4) obtain g u where d: "ds = g # u" "is_digit 10 g"
      by (rule all_digits_hd)
    from d(2) have "g \<noteq> CHR ''+''" "g \<noteq> CHR ''-''"
      using not_decimal_digit by auto
    with plain_exponent d show ?thesis by (auto simp: exponent_part_def)
  next
    case (plus_exponent c ds)
    then show ?thesis by (auto simp: exponent_part_def)
  next
    case (minus_exponent c ds)
    then show ?thesis by (auto simp: exponent_part_def)
  qed
qed

lemma exponent_lit_no_digit:
  assumes "exponent_lit ex e"
  shows "takeWhile (is_digit 10) ex = []" and "dropWhile (is_digit 10) ex = ex"
    and "ex = [] \<or> hd ex \<noteq> CHR ''.''"
  using assms by (auto elim!: exponent_lit.cases simp: not_decimal_digit)

lemma digits_then:
  assumes "list_all (is_digit 10) ip" and "takeWhile (is_digit 10) r = []"
  shows "takeWhile (is_digit 10) (ip @ r) = ip" and "dropWhile (is_digit 10) (ip @ r) = r"
proof -
  from assms(1) have a: "\<forall>c\<in>set ip. is_digit 10 c" by (simp add: list_all_iff)
  from assms(2) have b: "dropWhile (is_digit 10) r = r"
    by (cases r) (auto split: if_splits)
  from a assms(2) show "takeWhile (is_digit 10) (ip @ r) = ip" by (simp add: takeWhile_append2)
  from a b show "dropWhile (is_digit 10) (ip @ r) = r" by (simp add: dropWhile_append2)
qed

lemma unsigned_decimal_point:
  assumes "takeWhile (is_digit 10) u = ip" and "dropWhile (is_digit 10) u = CHR ''.'' # t"
    and "takeWhile (is_digit 10) t = fp" and "dropWhile (is_digit 10) t = r"
  shows "unsigned_decimal u =
     (if ip = [] \<and> fp = [] then None
      else case exponent_part r of
             None \<Rightarrow> None
           | Some e \<Rightarrow>
               Some ((real (radix_val 10 ip) + real (radix_val 10 fp) / 10 ^ length fp) * pow10 e))"
  unfolding unsigned_decimal_def assms(1,2) Let_def
  by (simp add: assms(3,4) split: option.splits)

lemma unsigned_decimal_no_point:
  assumes "takeWhile (is_digit 10) u = ip" and "dropWhile (is_digit 10) u = r"
    and "r = [] \<or> hd r \<noteq> CHR ''.''"
  shows "unsigned_decimal u =
     (if ip = [] then None
      else case exponent_part r of
             None \<Rightarrow> None
           | Some e \<Rightarrow> Some (real (radix_val 10 ip) * pow10 e))"
proof (cases r)
  case Nil
  show ?thesis
    unfolding unsigned_decimal_def assms(1,2) Let_def Nil
    by (simp add: radix_val_def split: option.splits)
next
  case (Cons c t)
  with assms(3) have "c \<noteq> CHR ''.''" by simp
  then show ?thesis
    unfolding unsigned_decimal_def assms(1,2) Let_def Cons
    by (simp add: radix_val_def split: option.splits)
qed

lemma unsigned_lit_parsed:
  assumes "unsigned_lit u v"
  shows "unsigned_decimal u = Some v"
  using assms
proof cases
  case (digits_point ip fp ex e)
  from digits_point(3) have ip: "ip \<noteq> []" "list_all (is_digit 10) ip"
    by (simp_all add: all_digits_def)
  have t0: "takeWhile (is_digit 10) (CHR ''.'' # fp @ ex) = []"
    by (simp add: not_decimal_digit)
  from digits_then [OF ip(2) t0]
  have 1: "takeWhile (is_digit 10) u = ip" "dropWhile (is_digit 10) u = CHR ''.'' # fp @ ex"
    unfolding digits_point(1) by simp_all
  from digits_then [OF digits_point(4) exponent_lit_no_digit(1) [OF digits_point(5)]]
  have 2: "takeWhile (is_digit 10) (fp @ ex) = fp" "dropWhile (is_digit 10) (fp @ ex) = ex" .
  from digits_point(5) have 3: "exponent_part ex = Some e" by (simp add: exponent_part_iff)
  show ?thesis
    unfolding unsigned_decimal_point [OF 1 2] by (simp add: 3 ip(1) digits_point(2))
next
  case (point_digits fp ex e)
  from point_digits(3) have fp: "fp \<noteq> []" "list_all (is_digit 10) fp"
    by (simp_all add: all_digits_def)
  have 1: "takeWhile (is_digit 10) u = []" "dropWhile (is_digit 10) u = CHR ''.'' # fp @ ex"
    unfolding point_digits(1) by (simp_all add: not_decimal_digit)
  from digits_then [OF fp(2) exponent_lit_no_digit(1) [OF point_digits(4)]]
  have 2: "takeWhile (is_digit 10) (fp @ ex) = fp" "dropWhile (is_digit 10) (fp @ ex) = ex" .
  from point_digits(4) have 3: "exponent_part ex = Some e" by (simp add: exponent_part_iff)
  show ?thesis
    unfolding unsigned_decimal_point [OF 1 2]
    by (simp add: 3 fp(1) point_digits(2) radix_val_def)
next
  case (digits_only ip ex e)
  from digits_only(3) have ip: "ip \<noteq> []" "list_all (is_digit 10) ip"
    by (simp_all add: all_digits_def)
  from digits_then [OF ip(2) exponent_lit_no_digit(1) [OF digits_only(4)]]
  have 1: "takeWhile (is_digit 10) u = ip" "dropWhile (is_digit 10) u = ex"
    unfolding digits_only(1) by simp_all
  from digits_only(4) have 3: "exponent_part ex = Some e" by (simp add: exponent_part_iff)
  show ?thesis
    unfolding unsigned_decimal_no_point [OF 1 exponent_lit_no_digit(3) [OF digits_only(4)]]
    by (simp add: 3 ip(1) digits_only(2))
qed

lemma parsed_unsigned_lit:
  assumes "unsigned_decimal u = Some v"
  shows "unsigned_lit u v"
proof -
  define ip where "ip = takeWhile (is_digit 10) u"
  define r1 where "r1 = dropWhile (is_digit 10) u"
  have u: "u = ip @ r1" by (simp add: ip_def r1_def)
  have dip: "list_all (is_digit 10) ip"
    unfolding ip_def list_all_iff by (auto dest: set_takeWhileD)
  show ?thesis
  proof (cases "r1 \<noteq> [] \<and> hd r1 = CHR ''.''")
    case True
    then obtain t where r1: "r1 = CHR ''.'' # t" by (cases r1) auto
    define fp where "fp = takeWhile (is_digit 10) t"
    define r2 where "r2 = dropWhile (is_digit 10) t"
    have t: "t = fp @ r2" by (simp add: fp_def r2_def)
    have dfp: "list_all (is_digit 10) fp"
      unfolding fp_def list_all_iff by (auto dest: set_takeWhileD)
    have "unsigned_decimal u =
       (if ip = [] \<and> fp = [] then None
        else case exponent_part r2 of
               None \<Rightarrow> None
             | Some e \<Rightarrow>
                 Some ((real (radix_val 10 ip) + real (radix_val 10 fp) / 10 ^ length fp) * pow10 e))"
      by (rule unsigned_decimal_point) (simp_all add: ip_def r1 [symmetric] r1_def fp_def r2_def)
    with assms obtain e where e: "exponent_part r2 = Some e"
      and ne: "\<not> (ip = [] \<and> fp = [])"
      and v: "v = (real (radix_val 10 ip) + real (radix_val 10 fp) / 10 ^ length fp) * pow10 e"
      by (auto split: if_splits option.splits)
    from e have el: "exponent_lit r2 e" by (simp add: exponent_part_iff)
    show ?thesis
    proof (cases "ip = []")
      case True
      with ne dfp have "all_digits 10 fp" by (simp add: all_digits_def)
      from point_digits [OF this el] show ?thesis
        unfolding v u r1 t using True by (simp add: radix_val_def)
    next
      case False
      with dip have "all_digits 10 ip" by (simp add: all_digits_def)
      from digits_point [OF this dfp el] show ?thesis
        unfolding v u r1 t by simp
    qed
  next
    case False
    then have h: "r1 = [] \<or> hd r1 \<noteq> CHR ''.''" by blast
    have "unsigned_decimal u =
       (if ip = [] then None
        else case exponent_part r1 of
               None \<Rightarrow> None
             | Some e \<Rightarrow> Some (real (radix_val 10 ip) * pow10 e))"
      by (rule unsigned_decimal_no_point [OF _ _ h]) (simp_all add: ip_def r1_def)
    with assms obtain e where e: "exponent_part r1 = Some e"
      and ne: "ip \<noteq> []"
      and v: "v = real (radix_val 10 ip) * pow10 e"
      by (auto split: if_splits option.splits)
    from e have el: "exponent_lit r1 e" by (simp add: exponent_part_iff)
    from ne dip have "all_digits 10 ip" by (simp add: all_digits_def)
    from digits_only [OF this el] show ?thesis
      unfolding v u by simp
  qed
qed

lemma unsigned_decimal_iff: "unsigned_decimal u = Some v \<longleftrightarrow> unsigned_lit u v"
  using unsigned_lit_parsed parsed_unsigned_lit by blast

lemma unsigned_decimal_not:
  "unsigned_decimal [] = None" "unsigned_decimal ''Infinity'' = None"
  "unsigned_decimal (CHR ''+'' # u) = None" "unsigned_decimal (CHR ''-'' # u) = None"
  "p \<in> {CHR ''x'', CHR ''X'', CHR ''o'', CHR ''O'', CHR ''b'', CHR ''B''} \<Longrightarrow>
     unsigned_decimal (CHR ''0'' # p # ds) = None"
proof -
  show "unsigned_decimal [] = None"
    by (simp add: unsigned_decimal_def)
  show "unsigned_decimal ''Infinity'' = None"
    by (simp add: unsigned_decimal_def not_decimal_digit)
  show "unsigned_decimal (CHR ''+'' # u) = None"
    by (simp add: unsigned_decimal_def not_decimal_digit)
  show "unsigned_decimal (CHR ''-'' # u) = None"
    by (simp add: unsigned_decimal_def not_decimal_digit)
  assume p: "p \<in> {CHR ''x'', CHR ''X'', CHR ''o'', CHR ''O'', CHR ''b'', CHR ''B''}"
  then have np: "\<not> is_digit 10 p" "p \<noteq> CHR ''.''" "p \<noteq> CHR ''e''" "p \<noteq> CHR ''E''"
    using not_decimal_digit by auto
  have z: "is_digit 10 CHR ''0''" by (simp add: is_digit_def digit_of_def)
  have 1: "takeWhile (is_digit 10) (CHR ''0'' # p # ds) = ''0''"
    "dropWhile (is_digit 10) (CHR ''0'' # p # ds) = p # ds"
    using np(1) z by simp_all
  have 2: "p # ds = [] \<or> hd (p # ds) \<noteq> CHR ''.''" using np(2) by simp
  show "unsigned_decimal (CHR ''0'' # p # ds) = None"
    unfolding unsigned_decimal_no_point [OF 1 2] using np(3,4)
    by (simp add: exponent_part_def)
qed

lemma non_decimal_iff:
  "non_decimal t = Some n \<longleftrightarrow>
     (\<exists>p ds. t = CHR ''0'' # p # ds \<and>
        ((p = CHR ''x'' \<or> p = CHR ''X'') \<and> all_digits 16 ds \<and> n = radix_val 16 ds
         \<or> (p = CHR ''o'' \<or> p = CHR ''O'') \<and> all_digits 8 ds \<and> n = radix_val 8 ds
         \<or> (p = CHR ''b'' \<or> p = CHR ''B'') \<and> all_digits 2 ds \<and> n = radix_val 2 ds))"
  by (auto simp: non_decimal_def split: list.splits if_splits)

lemma non_decimal_lit:
  assumes "non_decimal t = Some n"
  shows "numeric_lit t x \<longleftrightarrow> x = real n"
proof
  assume "x = real n"
  with assms show "numeric_lit t x"
    unfolding non_decimal_iff by (auto intro: numeric_lit.intros)
next
  assume "numeric_lit t x"
  then show "x = real n"
  proof cases
    case unsigned
    then have "unsigned_decimal t = Some x" by (simp add: unsigned_decimal_iff)
    with assms show ?thesis
      unfolding non_decimal_iff by (auto simp: unsigned_decimal_not)
  next
    case (plus u)
    with assms show ?thesis unfolding non_decimal_iff by auto
  next
    case (minus u v)
    with assms show ?thesis unfolding non_decimal_iff by auto
  next
    case (hex p ds)
    with assms show ?thesis unfolding non_decimal_iff by auto
  next
    case (octal p ds)
    with assms show ?thesis unfolding non_decimal_iff by auto
  next
    case (binary p ds)
    with assms show ?thesis unfolding non_decimal_iff by auto
  qed
qed

lemma signed_decimal_lit:
  assumes "non_decimal t = None"
  shows "signed_decimal t = Fin x \<longleftrightarrow> numeric_lit t x"
proof
  assume a: "signed_decimal t = Fin x"
  then obtain c u where t: "t = c # u" by (cases t) (auto simp: signed_decimal_def)
  show "numeric_lit t x"
  proof (cases "c = CHR ''+''")
    case True
    with a t have "unsigned_decimal u = Some x"
      by (auto simp: signed_decimal_def split: if_splits option.splits)
    then show ?thesis
      unfolding t True unsigned_decimal_iff by (rule numeric_lit.plus)
  next
    case False
    note np = this
    show ?thesis
    proof (cases "c = CHR ''-''")
      case True
      with a t obtain v where "unsigned_decimal u = Some v" "x = - v"
        by (auto simp: signed_decimal_def split: if_splits option.splits)
      then show ?thesis
        unfolding t True unsigned_decimal_iff by (auto intro: numeric_lit.minus)
    next
      case False
      with a t np have "unsigned_decimal t = Some x"
        by (auto simp: signed_decimal_def split: if_splits option.splits)
      then show ?thesis
        unfolding unsigned_decimal_iff by (rule numeric_lit.unsigned)
    qed
  qed
next
  assume "numeric_lit t x"
  then show "signed_decimal t = Fin x"
  proof cases
    case unsigned
    then have p: "unsigned_decimal t = Some x" by (simp add: unsigned_decimal_iff)
    then obtain c u where t: "t = c # u"
      by (cases t) (auto simp: unsigned_decimal_not)
    from p t have "c \<noteq> CHR ''+''" "c \<noteq> CHR ''-''" "t \<noteq> ''Infinity''"
      by (auto simp: unsigned_decimal_not)
    with p t show ?thesis by (simp add: signed_decimal_def)
  next
    case (plus u)
    then have p: "unsigned_decimal u = Some x" by (simp add: unsigned_decimal_iff)
    then have "u \<noteq> ''Infinity''" by (auto simp: unsigned_decimal_not)
    with p plus(1) show ?thesis by (simp add: signed_decimal_def)
  next
    case (minus u v)
    then have p: "unsigned_decimal u = Some v" by (simp add: unsigned_decimal_iff)
    then have "u \<noteq> ''Infinity''" by (auto simp: unsigned_decimal_not)
    with p minus(1,2) show ?thesis by (simp add: signed_decimal_def)
  next
    case (hex p ds)
    with assms show ?thesis by (simp add: non_decimal_def)
  next
    case (octal p ds)
    with assms show ?thesis by (auto simp: non_decimal_def split: if_splits)
  next
    case (binary p ds)
    with assms show ?thesis by (auto simp: non_decimal_def split: if_splits)
  qed
qed

lemma no_empty_literal: "\<not> numeric_lit [] x"
proof
  assume "numeric_lit [] x"
  then have "unsigned_lit [] x" by cases auto
  then have "unsigned_decimal [] = Some x" by (simp add: unsigned_decimal_iff)
  then show False by (simp add: unsigned_decimal_not)
qed

lemma literal_value_iff:
  "literal_value s = Fin x \<longleftrightarrow> (trim s = [] \<and> x = 0) \<or> numeric_lit (trim s) x"
proof (cases "trim s = []")
  case True
  then show ?thesis by (auto simp: literal_value_def no_empty_literal)
next
  case False
  show ?thesis
  proof (cases "non_decimal (trim s)")
    case None
    with False show ?thesis by (simp add: literal_value_def signed_decimal_lit)
  next
    case (Some n)
    with False show ?thesis by (auto simp: literal_value_def non_decimal_lit)
  qed
qed

subsection \<open>Rounding to the nearest double\<close>

lemma pow2_pos: "0 < pow2 e"
  by (simp add: pow2_def)

lemma pow2_succ: "pow2 (e + 1) = 2 * pow2 e"
proof (cases "0 \<le> e")
  case True
  then have "nat (e + 1) = Suc (nat e)" by simp
  with True show ?thesis by (simp add: pow2_def)
next
  case False
  then have "nat (- e) = Suc (nat (- (e + 1)))" by simp
  with False show ?thesis by (simp add: pow2_def)
qed

lemma pow2_add_nat: "pow2 (e + int n) = 2 ^ n * pow2 e"
proof (induction n)
  case 0
  show ?case by simp
next
  case (Suc n)
  have "pow2 (e + int (Suc n)) = pow2 ((e + int n) + 1)" by (simp add: algebra_simps)
  also have "\<dots> = 2 * pow2 (e + int n)" by (rule pow2_succ)
  finally show ?case by (simp add: Suc.IH)
qed

lemma pow2_mono:
  assumes "a \<le> b"
  shows "pow2 a \<le> pow2 b"
proof -
  from assms have "b = a + int (nat (b - a))" by simp
  then have "pow2 b = 2 ^ nat (b - a) * pow2 a" by (metis pow2_add_nat)
  moreover have "(1::real) \<le> 2 ^ nat (b - a)" by simp
  ultimately show ?thesis using pow2_pos [of a] by (simp add: mult_le_cancel_right1)
qed

lemma expo_up_ge: "e \<le> expo_up n a e"
proof (induction n arbitrary: e)
  case 0
  show ?case by simp
next
  case (Suc n)
  from Suc [of "e + 1"] show ?case by simp
qed

lemma expo_up_lower: "pow2 e \<le> a \<Longrightarrow> pow2 (expo_up n a e) \<le> a"
proof (induction n arbitrary: e)
  case 0
  then show ?case by simp
next
  case (Suc n)
  show ?case
  proof (cases "a < pow2 (e + 1)")
    case True
    with Suc.prems show ?thesis by simp
  next
    case False
    then have "pow2 (e + 1) \<le> a" by simp
    from Suc.IH [OF this] False show ?thesis by simp
  qed
qed

lemma expo_down_le: "expo_down n a e \<le> e"
proof (induction n arbitrary: e)
  case 0
  show ?case by simp
next
  case (Suc n)
  from Suc [of "e - 1"] show ?case by simp
qed

lemma expo_down_upper: "a < pow2 (e + 1) \<Longrightarrow> a < pow2 (expo_down n a e + 1)"
proof (induction n arbitrary: e)
  case 0
  then show ?case by simp
next
  case (Suc n)
  show ?case
  proof (cases "pow2 e \<le> a")
    case True
    with Suc.prems show ?thesis by simp
  next
    case False
    then have "a < pow2 ((e - 1) + 1)" by simp
    from Suc.IH [OF this] False show ?thesis by simp
  qed
qed

lemma round_half_even_near: "\<bar>q - of_int (round_half_even q)\<bar> \<le> 1 / 2"
  unfolding round_half_even_def Let_def by (auto split: if_splits)

lemma round_half_even_eq:
  assumes "of_int k - 1 / 2 \<le> q" and "q \<le> of_int k + 1 / 2" and "even k"
  shows "round_half_even q = k"
proof -
  consider "q = of_int k - 1 / 2" | "q = of_int k + 1 / 2"
    | "of_int k - 1 / 2 < q" "q < of_int k" | "of_int k \<le> q" "q < of_int k + 1 / 2"
    using assms by linarith
  then show ?thesis
  proof cases
    case 1
    then have f: "\<lfloor>q\<rfloor> = k - 1" by (simp add: floor_unique)
    with 1 assms(3) show ?thesis by (simp add: round_half_even_def)
  next
    case 2
    then have f: "\<lfloor>q\<rfloor> = k" by (simp add: floor_unique)
    with 2 assms(3) show ?thesis by (simp add: round_half_even_def)
  next
    case 3
    then have f: "\<lfloor>q\<rfloor> = k - 1" by (simp add: floor_unique)
    with 3 show ?thesis by (simp add: round_half_even_def)
  next
    case 4
    then have f: "\<lfloor>q\<rfloor> = k" by (simp add: floor_unique)
    with 4 show ?thesis by (simp add: round_half_even_def)
  qed
qed

lemma round_half_even_ge:
  assumes "of_int k \<le> q"
  shows "k \<le> round_half_even q"
proof -
  from assms have "k \<le> \<lfloor>q\<rfloor>" by (simp add: le_floor_iff)
  moreover have "\<lfloor>q\<rfloor> \<le> round_half_even q" by (simp add: round_half_even_def Let_def)
  ultimately show ?thesis by simp
qed

lemma round_half_even_le:
  assumes "q \<le> of_int k"
  shows "round_half_even q \<le> k"
proof (cases "q = of_int k")
  case True
  then show ?thesis by (simp add: round_half_even_def)
next
  case False
  with assms have "q < of_int k" by simp
  then have "\<lfloor>q\<rfloor> < k" by (simp add: floor_less_iff)
  moreover have "round_half_even q \<le> \<lfloor>q\<rfloor> + 1" by (simp add: round_half_even_def Let_def)
  ultimately show ?thesis by simp
qed

lemma binade_cases:
  "2 \<le> a \<Longrightarrow> binade a = expo_up 1022 a 1"
  "1 \<le> a \<Longrightarrow> a < 2 \<Longrightarrow> binade a = 0"
  "1 / 2 \<le> a \<Longrightarrow> a < 1 \<Longrightarrow> binade a = - 1"
  "a < 1 / 2 \<Longrightarrow> binade a = expo_down 1020 a (- 2)"
proof -
  have u: "expo_up 1023 a 0 = (if a < pow2 (0 + 1) then 0 else expo_up 1022 a (0 + 1))"
    using expo_up.simps(2) [of 1022 a 0] by simp
  have d: "expo_down 1021 a (- 1) = (if pow2 (- 1) \<le> a then - 1 else expo_down 1020 a (- 1 - 1))"
    using expo_down.simps(2) [of 1020 a "- 1"] by simp
  show "2 \<le> a \<Longrightarrow> binade a = expo_up 1022 a 1"
    unfolding binade_def u by (simp add: pow2_def)
  show "1 \<le> a \<Longrightarrow> a < 2 \<Longrightarrow> binade a = 0"
    unfolding binade_def u by (simp add: pow2_def)
  show "1 / 2 \<le> a \<Longrightarrow> a < 1 \<Longrightarrow> binade a = - 1"
    unfolding binade_def d by (simp add: pow2_def)
  show "a < 1 / 2 \<Longrightarrow> binade a = expo_down 1020 a (- 2)"
    unfolding binade_def d by (simp add: pow2_def)
qed

lemma round_double_pos:
  assumes "0 < x" and "x < 2 ^ 1024"
  shows "round_double x =
     (let r = of_int (round_half_even (x / pow2 (binade x - 52))) * pow2 (binade x - 52)
      in if 2 ^ 1024 \<le> r then PosInf else Fin r)"
  using assms by (simp add: round_double_def Let_def)

lemma round_double_not_pos:
  assumes "x \<le> 0"
  shows "round_double x \<noteq> Fin 1"
proof -
  let ?u = "pow2 (binade \<bar>x\<bar> - 52)"
  have "0 \<le> \<bar>x\<bar> / ?u" using pow2_pos [of "binade \<bar>x\<bar> - 52"] by simp
  then have "0 \<le> round_half_even (\<bar>x\<bar> / ?u)"
    using round_half_even_ge [of 0] by simp
  then have "0 \<le> of_int (round_half_even (\<bar>x\<bar> / ?u)) * ?u"
    using pow2_pos [of "binade \<bar>x\<bar> - 52"] by simp
  with assms show ?thesis by (auto simp: round_double_def Let_def)
qed

lemma round_double_one_iff:
  "round_double x = Fin 1 \<longleftrightarrow> 1 - 1 / 2 ^ 54 \<le> x \<and> x \<le> 1 + 1 / 2 ^ 53"
proof
  assume i: "1 - 1 / 2 ^ 54 \<le> x \<and> x \<le> 1 + 1 / 2 ^ 53"
  then have pos: "0 < x" "x < 2 ^ 1024" by simp_all
  show "round_double x = Fin 1"
  proof (cases "1 \<le> x")
    case True
    with i have b: "binade x = 0" by (simp add: binade_cases)
    from True i have "round_half_even (x * 2 ^ 52) = 2 ^ 52"
      by (intro round_half_even_eq) simp_all
    then show ?thesis
      unfolding round_double_pos [OF pos] b by (simp add: pow2_def)
  next
    case False
    with i have b: "binade x = - 1" by (simp add: binade_cases)
    from False i have "round_half_even (x * 2 ^ 53) = 2 ^ 53"
      by (intro round_half_even_eq) simp_all
    then show ?thesis
      unfolding round_double_pos [OF pos] b by (simp add: pow2_def)
  qed
next
  assume r: "round_double x = Fin 1"
  then have p: "0 < x" using round_double_not_pos [of x] by fastforce
  from r p have lt: "x < 2 ^ 1024" by (auto simp: round_double_def Let_def split: if_splits)
  define e where "e = binade x"
  define m where "m = round_half_even (x / pow2 (e - 52))"
  from r have m: "of_int m * pow2 (e - 52) = 1"
    unfolding round_double_pos [OF p lt] e_def m_def Let_def by (simp split: if_splits)
  have near: "\<bar>x / pow2 (e - 52) - of_int m\<bar> \<le> 1 / 2"
    unfolding m_def by (rule round_half_even_near)
  have e52: "pow2 e = 2 ^ 52 * pow2 (e - 52)"
    using pow2_add_nat [of "e - 52" 52] by simp
  have e53: "pow2 (e + 1) = 2 ^ 53 * pow2 (e - 52)"
    using pow2_add_nat [of "e - 52" 53] by (simp add: add.commute)
  consider "2 \<le> x" | "1 \<le> x" "x < 2" | "1 / 2 \<le> x" "x < 1" | "x < 1 / 2" by linarith
  then show "1 - 1 / 2 ^ 54 \<le> x \<and> x \<le> 1 + 1 / 2 ^ 53"
  proof cases
    case 1
    then have "e = expo_up 1022 x 1" by (simp add: e_def binade_cases)
    then have e1: "1 \<le> e" using expo_up_ge [of 1 1022 x] by simp
    have "pow2 0 \<le> x" using 1 by (simp add: pow2_def)
    then have "pow2 e \<le> x" unfolding e_def binade_def using 1 by (simp add: expo_up_lower)
    then have "2 ^ 52 \<le> x / pow2 (e - 52)"
      unfolding e52 using pow2_pos [of "e - 52"] by (simp add: pos_le_divide_eq)
    then have "2 ^ 52 \<le> m"
      unfolding m_def using round_half_even_ge [of "2 ^ 52"] by simp
    then have "(2::real) ^ 52 \<le> of_int m" by (metis of_int_le_iff of_int_numeral of_int_power)
    then have "pow2 e \<le> of_int m * pow2 (e - 52)"
      unfolding e52 using pow2_pos [of "e - 52"] by simp
    moreover have "pow2 1 \<le> pow2 e" using e1 by (rule pow2_mono)
    ultimately have "2 \<le> (1::real)" unfolding m by (simp add: pow2_def)
    then show ?thesis by simp
  next
    case 2
    then have "e = 0" by (simp add: e_def binade_cases)
    with m near have "of_int m = (2::real) ^ 52" "\<bar>x * 2 ^ 52 - of_int m\<bar> \<le> 1 / 2"
      by (simp_all add: pow2_def)
    then have "\<bar>x * 2 ^ 52 - 2 ^ 52\<bar> \<le> 1 / 2" by simp
    with 2 show ?thesis by simp
  next
    case 3
    then have "e = - 1" by (simp add: e_def binade_cases)
    with m near have "of_int m = (2::real) ^ 53" "\<bar>x * 2 ^ 53 - of_int m\<bar> \<le> 1 / 2"
      by (simp_all add: pow2_def)
    then have "\<bar>x * 2 ^ 53 - 2 ^ 53\<bar> \<le> 1 / 2" by simp
    with 3 show ?thesis by simp
  next
    case 4
    then have ed: "e = expo_down 1020 x (- 2)" by (simp add: e_def binade_cases)
    then have e2: "e + 1 \<le> - 1" using expo_down_le [of 1020 x "- 2"] by simp
    have "x < pow2 (- 2 + 1)" using 4 by (simp add: pow2_def)
    then have "x < pow2 (e + 1)" unfolding ed by (rule expo_down_upper)
    then have "x / pow2 (e - 52) \<le> 2 ^ 53"
      unfolding e53 using pow2_pos [of "e - 52"] by (simp add: pos_divide_le_eq)
    then have "m \<le> 2 ^ 53"
      unfolding m_def using round_half_even_le [of _ "2 ^ 53"] by simp
    then have "of_int m \<le> (2::real) ^ 53" by (metis of_int_le_iff of_int_numeral of_int_power)
    then have "of_int m * pow2 (e - 52) \<le> pow2 (e + 1)"
      unfolding e53 using pow2_pos [of "e - 52"] by simp
    moreover have "pow2 (e + 1) \<le> pow2 (- 1)" using e2 by (rule pow2_mono)
    ultimately have "(1::real) \<le> 1 / 2" unfolding m by (simp add: pow2_def)
    then show ?thesis by simp
  qed
qed

subsection \<open>Coercion of the made cell\<close>

lemma string_to_number_one_iff:
  "string_to_number s = Fin 1 \<longleftrightarrow>
     (\<exists>x. numeric_lit (trim s) x \<and> 1 - 1 / 2 ^ 54 \<le> x \<and> x \<le> 1 + 1 / 2 ^ 53)"
proof
  assume a: "string_to_number s = Fin 1"
  then obtain v where v: "literal_value s = Fin v" and r: "round_double v = Fin 1"
    by (cases "literal_value s") (simp_all add: string_to_number_def)
  from r have i: "1 - 1 / 2 ^ 54 \<le> v \<and> v \<le> 1 + 1 / 2 ^ 53" by (simp add: round_double_one_iff)
  then have "v \<noteq> 0" by auto
  with v have "numeric_lit (trim s) v" by (simp add: literal_value_iff)
  with i show "\<exists>x. numeric_lit (trim s) x \<and> 1 - 1 / 2 ^ 54 \<le> x \<and> x \<le> 1 + 1 / 2 ^ 53"
    by blast
next
  assume "\<exists>x. numeric_lit (trim s) x \<and> 1 - 1 / 2 ^ 54 \<le> x \<and> x \<le> 1 + 1 / 2 ^ 53"
  then obtain x where n: "numeric_lit (trim s) x"
    and i: "1 - 1 / 2 ^ 54 \<le> x \<and> x \<le> 1 + 1 / 2 ^ 53" by blast
  from n have "literal_value s = Fin x" by (simp add: literal_value_iff)
  moreover from i have "round_double x = Fin 1" by (simp add: round_double_one_iff)
  ultimately show "string_to_number s = Fin 1" by (simp add: string_to_number_def)
qed

lemma literal_of_value:
  assumes "literal_value s = Fin x" and "x \<noteq> 0"
  shows "numeric_lit (trim s) x"
  using assms by (simp add: literal_value_iff)

lemma value_of_literal:
  assumes "numeric_lit (trim s) x"
  shows "literal_value s = Fin x"
  using assms by (simp add: literal_value_iff)

lemma no_literal_near_one:
  assumes "\<And>x. literal_value s = Fin x \<Longrightarrow> \<not> (1 - 1 / 2 ^ 54 \<le> x \<and> x \<le> 1 + 1 / 2 ^ 53)"
  shows "\<not> (\<exists>x. numeric_lit (trim s) x \<and> 1 - 1 / 2 ^ 54 \<le> x \<and> x \<le> 1 + 1 / 2 ^ 53)"
  using assms value_of_literal by blast

lemma round_double_overflow:
  assumes "2 ^ 1024 \<le> x"
  shows "round_double x = PosInf"
proof -
  have "(0::real) < 2 ^ 1024" by simp
  with assms have "0 < x" by linarith
  with assms show ?thesis by (simp add: round_double_def)
qed

text \<open>
  C7. The made flag of a normalized row is the coercion of its made cell, and that is set
  exactly for the string \<open>"TRUE"\<close>, the boolean \<open>true\<close>, the number 1, and the strings
  that are, between white space, a numeric literal whose value is 1 as a double (the
  values from \<open>1 - 2^-54\<close> to \<open>1 + 2^-53\<close> are the ones that round to 1). So it is set for
  \<open>"TRUE"\<close>, \<open>true\<close>, \<open>1\<close> and \<open>"1"\<close>, and not for \<open>"FALSE"\<close>, \<open>0\<close>, the empty
  string and \<open>undefined\<close>.
\<close>

theorem made_coercion:
  "s_made (normalize d) = made_of (r_made d)
   \<and> (made_of v \<longleftrightarrow>
        v = Str ''TRUE'' \<or> v = Bool True \<or> v = Num (Fin 1) \<or>
        (\<exists>s x. v = Str s \<and> numeric_lit (trim s) x \<and> 1 - 1 / 2 ^ 54 \<le> x \<and> x \<le> 1 + 1 / 2 ^ 53))
   \<and> made_of (Str ''TRUE'') \<and> made_of (Bool True) \<and> made_of (Num (Fin 1)) \<and> made_of (Str ''1'')
   \<and> \<not> made_of (Str ''FALSE'') \<and> \<not> made_of (Num (Fin 0)) \<and> \<not> made_of (Str [])
   \<and> \<not> made_of Undefined"
proof -
  have n: "s_made (normalize d) = made_of (r_made d)" by (simp add: normalize_def)
  have g: "made_of v \<longleftrightarrow>
      v = Str ''TRUE'' \<or> v = Bool True \<or> v = Num (Fin 1) \<or>
      (\<exists>s x. v = Str s \<and> numeric_lit (trim s) x \<and> 1 - 1 / 2 ^ 54 \<le> x \<and> x \<le> 1 + 1 / 2 ^ 53)"
    by (cases v) (auto simp: made_of_def string_to_number_one_iff)
  have "literal_value ''1'' = Fin 1" by code_simp
  then have "string_to_number ''1'' = Fin 1"
    by (simp add: string_to_number_def round_double_one_iff)
  then have 1: "made_of (Str ''1'')" by (simp add: made_of_def)
  have "literal_value ''FALSE'' = NaN" by code_simp
  then have 2: "\<not> made_of (Str ''FALSE'')" by (simp add: made_of_def string_to_number_def)
  have "literal_value [] = Fin 0" by code_simp
  then have 3: "\<not> made_of (Str [])"
    by (simp add: made_of_def string_to_number_def round_double_one_iff)
  have 4: "made_of (Str ''TRUE'') \<and> made_of (Bool True) \<and> made_of (Num (Fin 1))
     \<and> \<not> made_of (Num (Fin 0)) \<and> \<not> made_of Undefined"
    by (simp add: made_of_def)
  from n g 1 2 3 4 show ?thesis by blast
qed

text \<open>
  Further cells: a literal between white space, a literal that is 1 only after rounding,
  a hexadecimal literal, a literal with a trailing letter, a literal beyond the largest
  double; and a whole row through \<open>normalize\<close>.
\<close>

theorem made_coercion_witness:
  "made_of (Str '' 1.0 '') \<and> made_of (Str ''1.0000000000000000001'') \<and> made_of (Str ''0x1'')
   \<and> \<not> made_of (Str ''1abc'') \<and> \<not> made_of (Str ''1e400'') \<and> \<not> made_of (Str ''true'')
   \<and> \<not> made_of (Str ''2'') \<and> \<not> made_of Null
   \<and> to_number (Str ''1e400'') = PosInf
   \<and> s_made (normalize \<lparr> r_x = Str ''10'', r_y = Str ''20'', r_made = Str ''1'',
        r_player = ''A'', r_team = ''T'', r_distance = Str ''12'', r_date = None,
        r_quarter = Str ''4'', r_minsLeft = Str ''3'', r_secsLeft = Str ''0'' \<rparr>)"
proof -
  have "literal_value '' 1.0 '' = Fin 1" by code_simp
  from literal_of_value [OF this] have "numeric_lit (trim '' 1.0 '') 1" by simp
  with made_coercion [of _ "Str '' 1.0 ''"] have a: "made_of (Str '' 1.0 '')" by auto
  have "literal_value ''1.0000000000000000001'' = Fin (1 + 1 / 10 ^ 19)" by code_simp
  from literal_of_value [OF this]
  have "numeric_lit (trim ''1.0000000000000000001'') (1 + 1 / 10 ^ 19)" by simp
  moreover have "1 - 1 / 2 ^ 54 \<le> (1 + 1 / 10 ^ 19 :: real) \<and> (1 + 1 / 10 ^ 19 :: real) \<le> 1 + 1 / 2 ^ 53"
    by simp
  ultimately have b: "made_of (Str ''1.0000000000000000001'')"
    using made_coercion [of _ "Str ''1.0000000000000000001''"] by blast
  have "literal_value ''0x1'' = Fin 1" by code_simp
  from literal_of_value [OF this] have "numeric_lit (trim ''0x1'') 1" by simp
  with made_coercion [of _ "Str ''0x1''"] have c: "made_of (Str ''0x1'')" by auto
  have l1: "literal_value ''1abc'' = NaN" by code_simp
  have "\<not> (\<exists>x. numeric_lit (trim ''1abc'') x \<and> 1 - 1 / 2 ^ 54 \<le> x \<and> x \<le> 1 + 1 / 2 ^ 53)"
    by (rule no_literal_near_one) (simp add: l1)
  with made_coercion [of _ "Str ''1abc''"] have d: "\<not> made_of (Str ''1abc'')" by simp
  have t: "trim ''1e400'' = ''1e400''" by code_simp
  have r: "radix_val 10 ''400'' = 400" "radix_val 10 ''1'' = 1" by code_simp+
  have "exponent_lit ''e400'' (int (radix_val 10 ''400''))"
    by (rule plain_exponent) (simp, code_simp)
  then have "unsigned_lit (''1'' @ ''e400'') (real (radix_val 10 ''1'') * pow10 (int (radix_val 10 ''400'')))"
    by (rule digits_only [rotated]) code_simp
  then have "unsigned_lit ''1e400'' (10 ^ 400)" by (simp add: r pow10_def)
  then have "numeric_lit (trim ''1e400'') (10 ^ 400)" unfolding t by (rule numeric_lit.unsigned)
  then have big: "literal_value ''1e400'' = Fin (10 ^ 400)" by (rule value_of_literal)
  have "\<not> (\<exists>x. numeric_lit (trim ''1e400'') x \<and> 1 - 1 / 2 ^ 54 \<le> x \<and> x \<le> 1 + 1 / 2 ^ 53)"
    by (rule no_literal_near_one) (simp add: big)
  with made_coercion [of _ "Str ''1e400''"] have e: "\<not> made_of (Str ''1e400'')" by simp
  have l2: "literal_value ''true'' = NaN" by code_simp
  have "\<not> (\<exists>x. numeric_lit (trim ''true'') x \<and> 1 - 1 / 2 ^ 54 \<le> x \<and> x \<le> 1 + 1 / 2 ^ 53)"
    by (rule no_literal_near_one) (simp add: l2)
  with made_coercion [of _ "Str ''true''"] have f: "\<not> made_of (Str ''true'')" by simp
  have l3: "literal_value ''2'' = Fin 2" by code_simp
  have "\<not> (\<exists>x. numeric_lit (trim ''2'') x \<and> 1 - 1 / 2 ^ 54 \<le> x \<and> x \<le> 1 + 1 / 2 ^ 53)"
    by (rule no_literal_near_one) (simp add: l3)
  with made_coercion [of _ "Str ''2''"] have g: "\<not> made_of (Str ''2'')" by simp
  from made_coercion [of _ Null] have h: "\<not> made_of Null" by auto
  have "(2::real) ^ 1024 \<le> 10 ^ 400" by simp
  from round_double_overflow [OF this] big have i: "to_number (Str ''1e400'') = PosInf"
    by (simp add: string_to_number_def)
  from made_coercion [of "\<lparr> r_x = Str ''10'', r_y = Str ''20'', r_made = Str ''1'',
        r_player = ''A'', r_team = ''T'', r_distance = Str ''12'', r_date = None,
        r_quarter = Str ''4'', r_minsLeft = Str ''3'', r_secsLeft = Str ''0'' \<rparr>" Undefined]
  have j: "s_made (normalize \<lparr> r_x = Str ''10'', r_y = Str ''20'', r_made = Str ''1'',
        r_player = ''A'', r_team = ''T'', r_distance = Str ''12'', r_date = None,
        r_quarter = Str ''4'', r_minsLeft = Str ''3'', r_secsLeft = Str ''0'' \<rparr>)"
    by simp
  from a b c d e f g h i j show ?thesis by blast
qed

subsection \<open>The constructor\<close>

text \<open>The constructor sets no brush range, so its \<open>redraw\<close> returns.\<close>

lemma init_chart_returns:
  "init_chart k B x y ds =
     Returned (draw B
       \<lparr> selPlayers = take (min 5 (length (allPlayers ds))) (allPlayers ds),
         selTeams = allTeams ds, madeFilter = All, distFilter = DAll, brushedExtent = None,
         data = ds, x_scale = x, y_scale = y, hx = hx_init ds, transform = (1, 0, 0),
         dots = [], next_node = 0, bins = [] \<rparr>)"
  by (simp add: init_chart_def redraw_none)

lemma init_consts [simp]:
  "data (state_of (init_chart k B x y ds)) = ds"
  "hx (state_of (init_chart k B x y ds)) = hx_init ds"
  "selPlayers (state_of (init_chart k B x y ds)) =
     take (min 5 (length (allPlayers ds))) (allPlayers ds)"
  "selTeams (state_of (init_chart k B x y ds)) = allTeams ds"
  "madeFilter (state_of (init_chart k B x y ds)) = All"
  "distFilter (state_of (init_chart k B x y ds)) = DAll"
  "brushedExtent (state_of (init_chart k B x y ds)) = None"
  "returns (init_chart k B x y ds)"
  by (simp_all add: init_chart_returns)

lemma drawn_init: "drawn B (state_of (init_chart k B x y ds))"
  by (simp add: init_chart_def drawn_redraw)

subsection \<open>The histogram\<close>

lemma bins_handle:
  "drawn B s \<Longrightarrow> bins (state_of (handle k B e s)) = bins s"
  using drawn_bins [OF drawn_handle [of B s k e]] drawn_bins [of B s] by simp

lemma bins_run:
  "drawn B s \<Longrightarrow> bins (run k B evs s) = bins s"
  using drawn_bins [OF drawn_run [of B s k evs]] drawn_bins [of B s] by simp

text \<open>
  C2. However \<open>redraw\<close> ends, the bins are then those that the bin generator makes of
  the finite distances of all of \<open>data\<close> over the domain of \<open>hx\<close>: the non-finite
  distances are left out, and neither a change of the players, teams, outcome, band or
  brush range nor any callback or sequence of callbacks changes the bins. The circles
  carry the filtered records.
\<close>

theorem histogram_bins_full_dataset:
  "bins (state_of (redraw k B st)) =
     B (dom_lo (hx st), dom_hi (hx st)) 25 (finite_values (data st))
   \<and> map Fin (finite_values (data st)) = filter isFinite (map s_dist (data st))
   \<and> bins (state_of (redraw j B (st\<lparr> selPlayers := ps, selTeams := ts, madeFilter := m,
                                       distFilter := dm, brushedExtent := be \<rparr>))) =
       bins (state_of (redraw k B st))
   \<and> bins (state_of (handle j B e (state_of (redraw k B st)))) = bins (state_of (redraw k B st))
   \<and> bins (run j B evs (state_of (redraw k B st))) = bins (state_of (redraw k B st))
   \<and> map datum (dots (draw B st)) = filtered st (data st)
   \<and> map datum (dots (state_of (redraw k B st))) =
       filtered (state_of (redraw k B st)) (data st)"
proof -
  have d: "map datum (dots (state_of (redraw k B st))) =
       filtered (state_of (redraw k B st)) (data st)"
    using drawn_datum [OF drawn_redraw [of B k st]] by simp
  show ?thesis
    by (simp add: bins_redraw bins_handle bins_run drawn_redraw finite_values_Fin datum_draw d)
qed

text \<open>On the two-player chart the bins stay while the circles follow the selection.\<close>

lemma st1_hx: "hx_upper two_players = 397 / 20 \<and> finite_values two_players = [5, 20]"
  by code_simp

lemma st1_flt: "filtered st1 (data st1) = two_players \<and> filtered st2 (data st2) = [two_players ! 1]"
  unfolding st1_def st2_def by code_simp

theorem histogram_bins_full_dataset_witness:
  "bins st1 = [(0, 397 / 20, [5, 20])] \<and> bins st2 = [(0, 397 / 20, [5, 20])]
   \<and> map datum (dots st1) = two_players \<and> map datum (dots st2) = [two_players ! 1]"
proof -
  define s0 where "s0 = \<lparr> selPlayers = take (min 5 (length (allPlayers two_players))) (allPlayers two_players),
         selTeams = allTeams two_players, madeFilter = All, distFilter = DAll, brushedExtent = None,
         data = two_players, x_scale = plain, y_scale = plain, hx = hx_init two_players,
         transform = (1, 0, 0), dots = [], next_node = 0, bins = [] \<rparr>"
  have a: "st1 = state_of (redraw 2 one_bin s0)"
    unfolding st1_def init_chart_def s0_def by (rule refl)
  have c: "st2 = state_of (redraw 2 one_bin (st1\<lparr> selPlayers := [''B''] \<rparr>))"
    by (simp add: st2_def)
  have d0: "bins (state_of (redraw 2 one_bin s0)) =
      one_bin (dom_lo (hx s0), dom_hi (hx s0)) 25 (finite_values (data s0))"
    using histogram_bins_full_dataset [of 2 one_bin s0] by blast
  have d: "bins (state_of (redraw 2 one_bin s0)) = [(0, 397 / 20, [5, 20])]"
    unfolding d0 by (simp add: s0_def hx_init_def one_bin_def st1_hx)
  have e0: "bins (state_of (handle 2 one_bin (PlayersChosen [''B'']) (state_of (redraw 2 one_bin s0)))) =
      bins (state_of (redraw 2 one_bin s0))"
    using histogram_bins_full_dataset [of 2 one_bin s0 _ _ _ _ _ _ "PlayersChosen [''B'']"] by blast
  have e: "bins st2 = bins (state_of (redraw 2 one_bin s0))"
    unfolding st2_def a by (rule e0)
  have f0: "map datum (dots (state_of (redraw 2 one_bin s0))) =
      filtered (state_of (redraw 2 one_bin s0)) (data s0)"
    using histogram_bins_full_dataset [of 2 one_bin s0] by blast
  have f: "map datum (dots st1) = filtered st1 (data st1)"
    unfolding a using f0 by simp
  have g0: "map datum (dots (state_of (redraw 2 one_bin (st1\<lparr> selPlayers := [''B''] \<rparr>)))) =
      filtered (state_of (redraw 2 one_bin (st1\<lparr> selPlayers := [''B''] \<rparr>)))
        (data (st1\<lparr> selPlayers := [''B''] \<rparr>))"
    using histogram_bins_full_dataset [of 2 one_bin "st1\<lparr> selPlayers := [''B''] \<rparr>"] by blast
  have g: "map datum (dots st2) = filtered st2 (data st2)"
    unfolding c using g0 by simp
  have h: "bins st1 = [(0, 397 / 20, [5, 20])]"
    unfolding a by (rule d)
  from h d e f g st1_flt show ?thesis by simp
qed

subsection \<open>Which circle a record gets\<close>

text \<open>
  C5. On the chart of the two records of players A and B, choosing player B alone keeps
  node 0, the circle drawn for the record of A, binds the record of B to it and leaves
  its position and fill as they were drawn for A; node 1, the circle drawn for the
  record of B, is removed. The key of the join is the position in \<open>filtered\<close>, not
  the position in \<open>data\<close>.
\<close>

theorem index_key_rebinds_first_circle:
  "map s_player two_players = [''A'', ''B'']
   \<and> map node (dots st1) = [0, 1]
   \<and> map datum (dots st1) = two_players
   \<and> map node (dots st2) = [0]
   \<and> map datum (dots st2) = [two_players ! 1]
   \<and> map cx (dots st2) = [Fin 10] \<and> map cy (dots st2) = [Fin 50]
   \<and> map fill (dots st2) = [''#4a90e2'']
   \<and> s_x (two_players ! 1) = Fin (- 30) \<and> s_y (two_players ! 1) = Fin 200
   \<and> \<not> s_made (two_players ! 1)"
  unfolding st2_def st1_def by code_simp

subsection \<open>Redrawing with a brush range\<close>

text \<open>
  Without a brush range \<open>redraw\<close> returns, and a second \<open>redraw\<close> leaves everything
  as the first one left it.
\<close>

lemma redraw_twice_without_range:
  "brushedExtent st = None \<Longrightarrow>
     redraw k B st = Returned (draw B st) \<and> redraw j B (draw B st) = Returned (draw B st)"
  by (simp add: redraw_none draw_draw)







subsection \<open>The brush\<close>




lemma redraw_zero_width:
  "brushedExtent st = Some (v, v) \<Longrightarrow>
     \<exists>w. brushedExtent (state_of (redraw k B st)) = Some (w, w)"
proof (induction k arbitrary: st v)
  case 0
  then show ?case by (simp add: Let_def)
next
  case (Suc k)
  let ?s1 = "draw B st"
  let ?sel = "Some (scale_apply (hx ?s1) v, scale_apply (hx ?s1) v)"
  let ?s2 = "store_selection ?sel ?s1"
  have e: "brushedExtent ?s1 = Some (v, v)" using Suc.prems by simp
  have z: "brushedExtent ?s2 =
      Some (scale_invert (hx ?s1) (scale_apply (hx ?s1) v),
            scale_invert (hx ?s1) (scale_apply (hx ?s1) v))"
    by simp
  obtain s where s: "redraw k B ?s2 = RangeError s"
    using redraw_some [of ?s2 k B] z by (cases "redraw k B ?s2") auto
  from Suc.IH [OF z] s obtain w where "brushedExtent s = Some (w, w)" by auto
  with e s show ?case by (simp add: Let_def)
qed




text \<open>
  A brush event whose selection has both ends at pixel 520 leaves the range from 17.5
  to 17.5 set, and the chart then shows the one record at 17.5 and no other.
\<close>

theorem brush_zero_width_counterexample:
  "brushedExtent (state_of (handle 1 one_bin (Brushed (Some (520, 520))) range_chart)) =
     Some (Fin (35 / 2), Fin (35 / 2))
   \<and> map s_dist (filtered (state_of (handle 1 one_bin (Brushed (Some (520, 520))) range_chart))
         (data range_chart)) = [Fin (35 / 2)]
   \<and> filtered range_chart (data range_chart) = range_shots"
  unfolding range_chart_def by code_simp

text \<open>
  C4, amended. A brush event with a \<open>null\<close> selection removes the range, and the
  visible records are then those that the other four criteria let through. After a
  brush event with a selection a range is set, whatever the selection is: when the two
  ends of the selection coincide, the range that is left has two equal ends. The range
  is absent after a brush event exactly when the selection was \<open>null\<close>. The listener
  returns on a \<open>null\<close> selection and ends in the \<open>RangeError\<close> on any other.
\<close>

theorem brush_null_clears_range:
  "handle k B (Brushed None) st = Returned (draw B (st\<lparr> brushedExtent := None \<rparr>))
   \<and> brushedExtent (state_of (handle k B (Brushed None) st)) = None
   \<and> filtered (state_of (handle k B (Brushed None) st)) (data st) =
       filter (\<lambda>d. actor_ok st d \<and> group_ok st d \<and> outcome_ok st d \<and> band_ok st d) (data st)
   \<and> brushedExtent (state_of (handle k B (Brushed (Some (p0, p1))) st)) \<noteq> None
   \<and> \<not> returns (handle k B (Brushed (Some (p0, p1))) st)
   \<and> (\<exists>v. brushedExtent (state_of (handle k B (Brushed (Some (p, p))) st)) = Some (v, v))
   \<and> (brushedExtent (state_of (handle k B (Brushed sel) st)) = None) = (sel = None)"
proof -
  have a: "handle k B (Brushed None) st = Returned (draw B (st\<lparr> brushedExtent := None \<rparr>))"
    by (simp add: on_brush_def store_selection_def redraw_none)
  have f: "filtered (state_of (handle k B (Brushed None) st)) (data st) =
       filter (\<lambda>d. actor_ok st d \<and> group_ok st d \<and> outcome_ok st d \<and> band_ok st d) (data st)"
    unfolding a
    by (simp add: filtered_conj actor_ok_def group_ok_def outcome_ok_def band_ok_def range_ok_def)
  have s: "\<And>q0 q1. brushedExtent (state_of (handle k B (Brushed (Some (q0, q1))) st)) \<noteq> None"
    using redraw_some [of "store_selection (Some (Fin _, Fin _)) st" k B]
    by (simp add: on_brush_def)
  have t: "\<not> returns (handle k B (Brushed (Some (p0, p1))) st)"
    using redraw_some [of "store_selection (Some (Fin p0, Fin p1)) st" k B]
    by (simp add: on_brush_def)
  have z: "\<exists>v. brushedExtent (state_of (handle k B (Brushed (Some (p, p))) st)) = Some (v, v)"
    using redraw_zero_width [of "store_selection (Some (Fin p, Fin p)) st" _ k B]
    by (simp add: on_brush_def)
  have n: "(brushedExtent (state_of (handle k B (Brushed sel) st)) = None) = (sel = None)"
  proof (cases sel)
    case None
    then show ?thesis using a by simp
  next
    case (Some q)
    then show ?thesis using s [of "fst q" "snd q"] by simp
  qed
  from a f s t z n show ?thesis by simp
qed

text \<open>
  On the chart with the range from 0 to 17.5 a \<open>null\<close> selection removes the range and
  all records are visible again; a selection from pixel 100 to pixel 100 leaves a range
  with equal ends.
\<close>

theorem brush_null_clears_range_witness:
  "brushedExtent ranged_chart \<noteq> None
   \<and> brushedExtent (state_of (handle 1 one_bin (Brushed None) ranged_chart)) = None
   \<and> returns (handle 1 one_bin (Brushed None) ranged_chart)
   \<and> filtered (state_of (handle 1 one_bin (Brushed None) ranged_chart)) range_shots = range_shots
   \<and> (\<exists>v. brushedExtent (state_of (handle 1 one_bin (Brushed (Some (100, 100))) ranged_chart)) =
        Some (v, v))"
proof -
  have a: "brushedExtent ranged_chart \<noteq> None"
    unfolding ranged_chart_def
    using brush_null_clears_range [of 1 one_bin range_chart 0 520] by blast
  have b: "brushedExtent (state_of (handle 1 one_bin (Brushed None) ranged_chart)) = None"
    using brush_null_clears_range [of 1 one_bin ranged_chart] by blast
  have r: "returns (handle 1 one_bin (Brushed None) ranged_chart)"
    using brush_null_clears_range [of 1 one_bin ranged_chart] by simp
  have c: "filtered (state_of (handle 1 one_bin (Brushed None) ranged_chart)) range_shots = range_shots"
    unfolding ranged_chart_def range_chart_def by code_simp
  have z: "\<exists>v. brushedExtent (state_of (handle 1 one_bin (Brushed (Some (100, 100))) ranged_chart)) =
        Some (v, v)"
    using brush_null_clears_range [of 1 one_bin ranged_chart _ _ 100] by blast
  from a b r c z show ?thesis by blast
qed

subsection \<open>The domain of the histogram\<close>

lemma bins_init_run:
  "bins (run j B evs (state_of (init_chart k B x y ds))) = B (0, hx_upper ds) 25 (finite_values ds)"
  using drawn_bins [OF drawn_run [OF drawn_init, of B j evs k x y ds]]
  by (simp add: hx_init_def)

text \<open>
  For a single record at distance 0 the 0.99 quantile is 0, and the domain ends at 35.
\<close>

theorem hx_upper_zero_quantile_counterexample:
  "quantile (sort (finite_values zero_shot)) (99 / 100) = Some 0
   \<and> dom_hi (hx (state_of (init_chart 2 one_bin plain plain zero_shot))) = 35"
  by code_simp

text \<open>
  C8, amended. The constructor sets the domain of \<open>hx\<close> to start at 0 and to end at
  the 0.99 quantile of the finite distances of all of \<open>data\<close> when that quantile
  exists and is not 0, and at 35 otherwise. No callback changes \<open>hx\<close>, however it
  ends, so after any sequence of callbacks \<open>hx\<close> is the scale of the constructor and
  the bins are those of all finite distances over its domain.
\<close>

theorem hx_domain_fixed_at_init:
  "dom_lo (hx (state_of (init_chart k B x y ds))) = 0
   \<and> (quantile (sort (finite_values ds)) (99 / 100) = Some q \<and> q \<noteq> 0 \<longrightarrow>
        dom_hi (hx (state_of (init_chart k B x y ds))) = q)
   \<and> (quantile (sort (finite_values ds)) (99 / 100) = None \<or>
      quantile (sort (finite_values ds)) (99 / 100) = Some 0 \<longrightarrow>
        dom_hi (hx (state_of (init_chart k B x y ds))) = 35)
   \<and> hx (state_of (handle j B e st)) = hx st
   \<and> hx (run j B evs (state_of (init_chart k B x y ds))) = hx (state_of (init_chart k B x y ds))
   \<and> bins (run j B evs (state_of (init_chart k B x y ds))) =
       B (0, dom_hi (hx (state_of (init_chart k B x y ds)))) 25 (finite_values ds)"
  by (auto simp: hx_init_def hx_upper_def bins_init_run)

text \<open>Distances 3, 1 and 2 give the quantile 2.98, which stays through callbacks.\<close>

theorem hx_domain_fixed_at_init_witness:
  "quantile (sort (finite_values three_dists)) (99 / 100) = Some (149 / 50)
   \<and> dom_hi (hx (state_of (init_chart 2 one_bin plain plain three_dists))) = 149 / 50
   \<and> quantile (sort (finite_values [])) (99 / 100) = None
   \<and> dom_hi (hx (state_of (init_chart 2 one_bin plain plain []))) = 35
   \<and> quantile (sort (finite_values zero_shot)) (99 / 100) = Some 0
   \<and> dom_hi (hx (state_of (init_chart 2 one_bin plain plain zero_shot))) = 35
   \<and> dom_hi (hx (run 2 one_bin [ResultChosen Made, Brushed (Some (10, 90)), DistChosen D23plus]
        (state_of (init_chart 2 one_bin plain plain three_dists)))) = 149 / 50"
proof -
  have q: "quantile (sort (finite_values three_dists)) (99 / 100) = Some (149 / 50)"
    by code_simp
  have n: "quantile (sort (finite_values [])) (99 / 100) = None"
    by code_simp
  have a: "dom_hi (hx (state_of (init_chart 2 one_bin plain plain three_dists))) = 149 / 50"
    using hx_domain_fixed_at_init [of 2 one_bin plain plain three_dists "149 / 50"] q by simp
  have b: "dom_hi (hx (state_of (init_chart 2 one_bin plain plain []))) = 35"
    using hx_domain_fixed_at_init [of 2 one_bin plain plain "[]"] n by blast
  have z: "quantile (sort (finite_values zero_shot)) (99 / 100) = Some 0"
    by code_simp
  have y: "dom_hi (hx (state_of (init_chart 2 one_bin plain plain zero_shot))) = 35"
    using hx_domain_fixed_at_init [of 2 one_bin plain plain zero_shot] z by blast
  have c: "hx (run 2 one_bin [ResultChosen Made, Brushed (Some (10, 90)), DistChosen D23plus]
        (state_of (init_chart 2 one_bin plain plain three_dists))) =
      hx (state_of (init_chart 2 one_bin plain plain three_dists))"
    using hx_domain_fixed_at_init [of 2 one_bin plain plain three_dists _ 2] by blast
  from q n a b z y c show ?thesis by simp
qed

subsection \<open>The initial selection\<close>

lemma set_uniq [simp]: "set (uniq xs) = set xs"
  by (induction xs rule: uniq.induct) auto

lemma distinct_uniq [simp]: "distinct (uniq xs)"
  by (induction xs rule: uniq.induct) auto

lemma take_min_five: "take (min 5 (length xs)) xs = take 5 xs"
  by (simp add: min_def)

lemma filtered_init:
  "filtered (state_of (init_chart k B x y ds)) ds =
     filter (\<lambda>d. s_player d \<in> set (take 5 (allPlayers ds))) ds"
  unfolding filtered_conj
  by (rule filter_cong)
     (auto simp: actor_ok_def group_ok_def outcome_ok_def band_ok_def range_ok_def take_min_five
        allTeams_def)

lemma sixth_not_in_first_five:
  "distinct xs \<Longrightarrow> 5 < length xs \<Longrightarrow> xs ! 5 \<notin> set (take 5 xs)"
  by (auto simp: in_set_conv_nth nth_eq_iff_index_eq)

text \<open>
  C10. The constructor selects the first five of the distinct player names in sorted
  order, or all of them when there are at most five, and all teams, with outcome and
  band on "All" and no brush range, and its \<open>redraw\<close> returns. The records drawn first
  are therefore those of \<open>data\<close> whose player is among these five: no record of
  another player is among them, and with more than five players some record of
  \<open>data\<close> is left out.
\<close>

theorem initial_selection_first_five:
  "selPlayers (state_of (init_chart k B x y ds)) = take 5 (allPlayers ds)
   \<and> sorted (allPlayers ds) \<and> distinct (allPlayers ds) \<and> set (allPlayers ds) = s_player ` set ds
   \<and> (length (allPlayers ds) \<le> 5 \<longrightarrow>
        selPlayers (state_of (init_chart k B x y ds)) = allPlayers ds)
   \<and> selTeams (state_of (init_chart k B x y ds)) = allTeams ds
   \<and> set (allTeams ds) = s_team ` set ds
   \<and> madeFilter (state_of (init_chart k B x y ds)) = All
   \<and> distFilter (state_of (init_chart k B x y ds)) = DAll
   \<and> brushedExtent (state_of (init_chart k B x y ds)) = None
   \<and> returns (init_chart k B x y ds)
   \<and> filtered (state_of (init_chart k B x y ds)) ds =
       filter (\<lambda>d. s_player d \<in> set (take 5 (allPlayers ds))) ds
   \<and> map datum (dots (state_of (init_chart k B x y ds))) =
       filter (\<lambda>d. s_player d \<in> set (take 5 (allPlayers ds))) ds
   \<and> (\<forall>d \<in> set ds. s_player d \<notin> set (take 5 (allPlayers ds)) \<longrightarrow>
        d \<notin> set (filtered (state_of (init_chart k B x y ds)) ds))
   \<and> (5 < length (allPlayers ds) \<longrightarrow>
        (\<exists>d \<in> set ds. d \<notin> set (filtered (state_of (init_chart k B x y ds)) ds)))"
proof -
  have s: "sorted (allPlayers ds) \<and> distinct (allPlayers ds) \<and> set (allPlayers ds) = s_player ` set ds
     \<and> set (allTeams ds) = s_team ` set ds"
    by (simp add: allPlayers_def allTeams_def)
  have m: "map datum (dots (state_of (init_chart k B x y ds))) =
      filtered (state_of (init_chart k B x y ds)) ds"
    using drawn_datum [OF drawn_init [of B k x y ds]] by simp
  have e: "5 < length (allPlayers ds) \<longrightarrow>
        (\<exists>d \<in> set ds. d \<notin> set (filtered (state_of (init_chart k B x y ds)) ds))"
  proof
    assume l: "5 < length (allPlayers ds)"
    with s have n: "allPlayers ds ! 5 \<notin> set (take 5 (allPlayers ds))"
      by (simp add: sixth_not_in_first_five)
    from l s have "allPlayers ds ! 5 \<in> s_player ` set ds"
      using nth_mem [of 5 "allPlayers ds"] by simp
    then obtain d where "d \<in> set ds" "s_player d = allPlayers ds ! 5" by auto
    with n show "\<exists>d \<in> set ds. d \<notin> set (filtered (state_of (init_chart k B x y ds)) ds)"
      by (intro bexI [of _ d]) (simp_all add: filtered_init)
  qed
  from s m e show ?thesis
    by (simp add: filtered_init take_min_five)
qed

text \<open>Of six players A to F the first five are selected and the record of F is left out.\<close>

theorem initial_selection_first_five_witness:
  "allPlayers six_players = [''A'', ''B'', ''C'', ''D'', ''E'', ''F'']
   \<and> selPlayers (state_of (init_chart 2 one_bin plain plain six_players)) =
       [''A'', ''B'', ''C'', ''D'', ''E'']
   \<and> 5 < length (allPlayers six_players)
   \<and> hd six_players \<in> set six_players
   \<and> s_player (hd six_players) = ''F''
   \<and> s_player (hd six_players) \<notin> set (take 5 (allPlayers six_players))
   \<and> hd six_players \<notin>
       set (filtered (state_of (init_chart 2 one_bin plain plain six_players)) six_players)
   \<and> (\<exists>d \<in> set six_players.
         d \<notin> set (filtered (state_of (init_chart 2 one_bin plain plain six_players)) six_players))
   \<and> length (allPlayers two_players) \<le> 5
   \<and> selPlayers (state_of (init_chart 2 one_bin plain plain two_players)) = [''A'', ''B'']"
proof -
  have a: "allPlayers six_players = [''A'', ''B'', ''C'', ''D'', ''E'', ''F'']"
    by code_simp
  have b: "selPlayers (state_of (init_chart 2 one_bin plain plain six_players)) =
      [''A'', ''B'', ''C'', ''D'', ''E'']"
    using initial_selection_first_five [of 2 one_bin plain plain six_players] by (simp add: a)
  have c: "hd six_players \<in> set six_players \<and> s_player (hd six_players) = ''F''"
    by (simp add: six_players_def shot_of_def)
  have d: "s_player (hd six_players) \<notin> set (take 5 (allPlayers six_players))"
    by (simp add: a c)
  have e: "hd six_players \<notin>
      set (filtered (state_of (init_chart 2 one_bin plain plain six_players)) six_players)"
    using initial_selection_first_five [of 2 one_bin plain plain six_players] c d by blast
  have f: "allPlayers two_players = [''A'', ''B'']"
    by code_simp
  have g: "selPlayers (state_of (init_chart 2 one_bin plain plain two_players)) = [''A'', ''B'']"
    using initial_selection_first_five [of 2 one_bin plain plain two_players] by (simp add: f)
  have l: "5 < length (allPlayers six_players)"
    by (simp add: a)
  have h: "\<exists>d \<in> set six_players.
         d \<notin> set (filtered (state_of (init_chart 2 one_bin plain plain six_players)) six_players)"
    using initial_selection_first_five [of 2 one_bin plain plain six_players] l by blast
  from a b c d e f g h show ?thesis by simp
qed

subsection \<open>The tooltip\<close>

lemma show_nat_digits: "c \<in> set (show_nat n) \<Longrightarrow> is_digit 10 c"
proof (induction n rule: show_nat.induct)
  case (1 n)
  have m: "n mod 10 < 10" by simp
  have d: "\<And>k::nat. k < 10 \<Longrightarrow> is_digit 10 (char_of (48 + k))"
    by (simp add: is_digit_def digit_of_def Let_def)
  show ?case
  proof (cases "n < 10")
    case True
    with "1.prems" d show ?thesis by (simp add: show_nat.simps [of n])
  next
    case False
    with "1.prems" have "c \<in> set (show_nat (n div 10)) \<or> c = char_of (48 + n mod 10)"
      by (auto simp: show_nat.simps [of n])
    with "1.IH" False d [OF m] show ?thesis by auto
  qed
qed

lemma show_nat_one: "k < 10 \<Longrightarrow> show_nat k = [char_of (48 + k)]"
  by (simp add: show_nat.simps [of k])

lemma show_nat_not_empty: "show_nat n \<noteq> []"
  by (simp add: show_nat.simps [of n])

lemma digit_of_char: "k < 10 \<Longrightarrow> digit_of (char_of (48 + k)) = Some k"
  by (simp add: digit_of_def Let_def)

lemma radix_val_snoc:
  "radix_val b (cs @ [c]) = b * radix_val b cs + (case digit_of c of None \<Rightarrow> 0 | Some v \<Rightarrow> v)"
  by (simp add: radix_val_def)

lemma radix_val_show_nat: "radix_val 10 (show_nat n) = n"
proof (induction n rule: show_nat.induct)
  case (1 n)
  have m: "n mod 10 < 10" by simp
  show ?case
  proof (cases "n < 10")
    case True
    then show ?thesis
      using radix_val_snoc [of 10 "[]" "char_of (48 + n)"]
      by (simp add: show_nat.simps [of n] digit_of_char radix_val_def)
  next
    case False
    with "1.IH" have "radix_val 10 (show_nat (n div 10)) = n div 10" by simp
    with False show ?thesis
      by (simp add: show_nat.simps [of n] radix_val_snoc digit_of_char [OF m])
  qed
qed

text \<open>
  The distance text of a finite distance below \<open>10^21\<close> in magnitude: an optional minus
  sign and a decimal literal with exactly one digit after the point, whose value is a
  multiple of one tenth at most one twentieth away from the magnitude of the distance.
\<close>

lemma toFixed1_nearest_tenth:
  assumes "\<bar>v\<bar> < 10 ^ 21"
  shows "\<exists>ip c w. toFixed1 v = Txt ((if v < 0 then [CHR ''-''] else []) @ ip @ [CHR ''.'', c])
           \<and> all_digits 10 ip \<and> is_digit 10 c
           \<and> unsigned_lit (ip @ [CHR ''.'', c]) w
           \<and> \<bar>w - \<bar>v\<bar>\<bar> \<le> 1 / 20 \<and> (\<exists>n::nat. w = real n / 10)"
proof -
  define n where "n = nat \<lfloor>\<bar>v\<bar> * 10 + 1 / 2\<rfloor>"
  define ip where "ip = show_nat (n div 10)"
  define c where "c = char_of (48 + n mod 10)"
  define w where "w = real n / 10"
  have m: "n mod 10 < 10" by simp
  have t: "toFixed1 v = Txt ((if v < 0 then [CHR ''-''] else []) @ ip @ [CHR ''.'', c])"
    using assms by (simp add: toFixed1_def Let_def n_def [symmetric] ip_def c_def show_nat_one [OF m])
  have di: "all_digits 10 ip"
    unfolding all_digits_def ip_def list_all_iff using show_nat_digits show_nat_not_empty by blast
  have dc: "is_digit 10 c"
    using show_nat_digits [of c "n mod 10"] by (simp add: c_def show_nat_one [OF m])
  have vi: "radix_val 10 ip = n div 10" by (simp add: ip_def radix_val_show_nat)
  have vc: "radix_val 10 [c] = n mod 10"
    using radix_val_show_nat [of "n mod 10"] by (simp add: c_def show_nat_one [OF m])
  from dc have "list_all (is_digit 10) [c]" by simp
  from digits_point [OF di this no_exponent]
  have "unsigned_lit (ip @ [CHR ''.'', c]) ((real (n div 10) + real (n mod 10) / 10) * pow10 0)"
    by (simp add: vi vc)
  moreover have "(real (n div 10) + real (n mod 10) / 10) * pow10 0 = w"
  proof -
    have "real n = real (10 * (n div 10) + n mod 10)" by simp
    also have "\<dots> = 10 * real (n div 10) + real (n mod 10)" by (simp only: of_nat_add of_nat_mult of_nat_numeral)
    finally show ?thesis by (simp add: w_def pow10_def)
  qed
  ultimately have u: "unsigned_lit (ip @ [CHR ''.'', c]) w" by simp
  have f: "real n = of_int \<lfloor>\<bar>v\<bar> * 10 + 1 / 2\<rfloor>"
  proof -
    have "0 \<le> \<lfloor>\<bar>v\<bar> * 10 + 1 / 2\<rfloor>" by simp
    then show ?thesis by (simp add: n_def)
  qed
  have "\<bar>real n - \<bar>v\<bar> * 10\<bar> \<le> 1 / 2" unfolding f by linarith
  then have near: "\<bar>w - \<bar>v\<bar>\<bar> \<le> 1 / 20" unfolding w_def by linarith
  have "\<exists>k::nat. w = real k / 10" unfolding w_def by blast
  with t di dc u near show ?thesis by blast
qed

text \<open>
  The rows: the name, the result and the distance, then the date row (the first ten
  characters of the date text) only when there is a date, then the clock row only when
  there is a period. A distance that is not finite shows as \<open>NA\<close>. In the clock row
  seconds that are present are their text padded on the left with \<open>0\<close> to two
  characters.
\<close>

lemma tooltip_rows_structure:
  "tooltip_rows d =
       [row_name d, row_result d, row_distance d]
       @ (case s_date d of None \<Rightarrow> [] | Some ts \<Rightarrow> [[Txt ''Date: '', Txt (take 10 ts)]])
       @ (case s_q d of
            None \<Rightarrow> []
          | Some q \<Rightarrow> [[Txt ''Q'', NumTxt q, Txt ''  '', mins_text (s_mins d), Txt '':'',
                       secs_text (s_secs d)]])"
  and "s_dist d = Fin v \<Longrightarrow> row_distance d = [Txt ''Distance: '', toFixed1 v, Txt '' ft'']"
  and "\<not> isFinite (s_dist d) \<Longrightarrow> row_distance d = [Txt ''Distance: '', Txt ''NA'', Txt '' ft'']"
  and "mins_text (Some n) = NumTxt n" and "secs_text (Some n) = Pad2 n"
  and "render nts (Pad2 n) = replicate (2 - length (nts n)) (CHR ''0'') @ nts n"
proof -
  show "tooltip_rows d =
       [row_name d, row_result d, row_distance d]
       @ (case s_date d of None \<Rightarrow> [] | Some ts \<Rightarrow> [[Txt ''Date: '', Txt (take 10 ts)]])
       @ (case s_q d of
            None \<Rightarrow> []
          | Some q \<Rightarrow> [[Txt ''Q'', NumTxt q, Txt ''  '', mins_text (s_mins d), Txt '':'',
                       secs_text (s_secs d)]])"
    by (simp add: tooltip_rows_def row_truthy_def row_name_def row_result_def row_distance_def
          row_date_def row_clock_def split: option.splits)
  show "s_dist d = Fin v \<Longrightarrow> row_distance d = [Txt ''Distance: '', toFixed1 v, Txt '' ft'']"
    by (simp add: row_distance_def)
  show "\<not> isFinite (s_dist d) \<Longrightarrow> row_distance d = [Txt ''Distance: '', Txt ''NA'', Txt '' ft'']"
    by (cases "s_dist d") (simp_all add: row_distance_def)
  show "mins_text (Some n) = NumTxt n" and "secs_text (Some n) = Pad2 n"
    by (simp_all add: mins_text_def secs_text_def)
  show "render nts (Pad2 n) = replicate (2 - length (nts n)) (CHR ''0'') @ nts n"
    by (simp add: padStart_def)
qed

lemma tooltip_rows_examples:
  "row_distance dated_shot = [Txt ''Distance: '', Txt ''12.3'', Txt '' ft'']"
  "tooltip_rows dated_shot =
       [row_name dated_shot, row_result dated_shot, row_distance dated_shot,
        [Txt ''Date: '', Txt ''2004-03-12''],
        [Txt ''Q'', NumTxt (Fin 4), Txt ''  '', Txt [], Txt '':'', Pad2 (Fin 7)]]"
  "tooltip_rows (shot_of ''A'' ''T'' True NaN) =
       [row_name (shot_of ''A'' ''T'' True NaN), row_result (shot_of ''A'' ''T'' True NaN),
        [Txt ''Distance: '', Txt ''NA'', Txt '' ft'']]"
  by code_simp+

text \<open>
  C9. The record has period 4, minutes 3 and no seconds. Absent minutes and absent
  seconds are both replaced by the empty string, and absent minutes show as the empty
  string; but the seconds are then padded to two characters, so the absent seconds show
  as \<open>00\<close> and the clock row reads \<open>Q4  3:00\<close>: absent seconds do not render as the
  empty string.
\<close>

theorem clock_row_absent_seconds:
  "s_q clock_shot = Some (Fin 4) \<and> s_mins clock_shot = Some (Fin 3) \<and> s_secs clock_shot = None
   \<and> secs_text (s_secs clock_shot) = Txt ''00''
   \<and> secs_text (s_secs clock_shot) \<noteq> Txt []
   \<and> mins_text None = Txt []
   \<and> last (tooltip_rows clock_shot) =
       [Txt ''Q'', NumTxt (Fin 4), Txt ''  '', NumTxt (Fin 3), Txt '':'', Txt ''00'']
   \<and> concat (map (render (\<lambda>n. [])) (last (tooltip_rows (clock_shot\<lparr> s_mins := None \<rparr>)))) = ''Q  :00''"
  by code_simp

end
